theory Spec2Isabelle
  imports Main "HOL-Library.AList"
begin

section \<open>Reading tracker: data model\<close>

text \<open>
  Shallow embedding of the state engine of \<^verbatim>\<open>reading-tracker/app/page.tsx\<close>.

  Modelling conventions.
  \<^item> JavaScript numbers that hold page and minute counts are whole numbers produced by
    \<^verbatim>\<open>Number.parseInt\<close> or by a range input; they are modelled as \<^typ>\<open>int\<close>, with exact
    addition and subtraction. The source computes with IEEE doubles, which hold every
    whole number of magnitude up to \<open>2^53\<close> exactly and round beyond. A theorem whose
    truth depends on a sum or difference being exact states the range as a hypothesis
    (\<open>exactLimit\<close>); the other theorems hold for the rounded results as well.
  \<^item> \<^verbatim>\<open>NaN\<close> is \<open>None\<close> of an \<open>int option\<close>.
  \<^item> Strings are \<^typ>\<open>string\<close>, read as ASCII text.
  \<^item> A calendar-date string is an \<open>isodate\<close>: \<open>IsoDay d\<close> is the canonical
    \<^verbatim>\<open>YYYY-MM-DD\<close> text of the day \<open>d\<close> days after 1970-01-01 (years 0000 to 9999),
    \<open>Unparsed s\<close> is any text that \<^verbatim>\<open>new Date\<close> turns into an invalid date (a cleared
    date input yields the empty string).
  \<^item> The clock is a parameter: \<open>now\<close> is the value of \<^verbatim>\<open>Date.now()\<close> in milliseconds.
    For the week window \<open>utcOffset\<close> is the offset of local time east of UTC in
    milliseconds. For the streak, whose walk moves by local calendar days, the time zone
    of the host is a \<open>TimeZone\<close>: the offset in effect at each instant, so that a
    clock change during the walk is part of the model.
  \<^item> \<^verbatim>\<open>safeId()\<close> draws a random identifier; the drawn value is a parameter.
  \<^item> A handler that calls \<^verbatim>\<open>setError\<close> and returns early yields the message together
    with the state it was given; a handler that reaches \<^verbatim>\<open>setState\<close> yields \<open>None\<close>
    and the new state.
\<close>

datatype BookStatus = NotStarted | InProgress | Completed

datatype isodate = IsoDay int | Unparsed string

record Book =
  book_id :: string
  title :: string
  author :: string
  totalPages :: int
  currentPage :: int
  status :: BookStatus
  startedAt :: isodate
  targetDate :: "string option"
  notes_opt :: "string option"

record ReadingSession =
  session_id :: string
  bookId :: string
  date :: isodate
  pagesRead :: int
  minutes :: int
  note_opt :: "string option"

record Preferences =
  weeklyMinutesGoal :: int
  dailyPagesGoal :: int
  showCompleted :: bool

record TrackerState =
  books :: "Book list"
  sessions :: "ReadingSession list"
  preferences :: Preferences

record BookFormState =
  title_in :: string
  author_in :: string
  totalPages_in :: string
  targetDate_in :: string
  notes_in :: string

record SessionFormState =
  bookId_in :: string
  date_in :: isodate
  pagesRead_in :: string
  minutes_in :: string
  note_in :: string

definition DEFAULT_STATE :: TrackerState where
  "DEFAULT_STATE =
     \<lparr> books = [], sessions = [],
       preferences = \<lparr> weeklyMinutesGoal = 420, dailyPagesGoal = 30, showCompleted = True \<rparr> \<rparr>"

section \<open>Helpers of the source\<close>

definition msPerDay :: int where
  "msPerDay = 86400000"

text \<open>\<^verbatim>\<open>new Date().toISOString().slice(0, 10)\<close>: the UTC calendar date of the clock.\<close>

definition todayIso :: "int \<Rightarrow> isodate" where
  "todayIso now = IsoDay (now div msPerDay)"

text \<open>\<^verbatim>\<open>new Date(value).getTime()\<close>: a date-only text is UTC midnight of that day.\<close>

fun getTime :: "isodate \<Rightarrow> int option" where
  "getTime (IsoDay d) = Some (d * msPerDay)"
| "getTime (Unparsed s) = None"

definition clamp :: "int \<Rightarrow> int \<Rightarrow> int \<Rightarrow> int" where
  "clamp v lo hi = min (max v lo) hi"


definition isWhiteSpace :: "char \<Rightarrow> bool" where
  "isWhiteSpace c = (c \<in> set [CHR 0x20, CHR 0x09, CHR 0x0A, CHR 0x0B, CHR 0x0C, CHR 0x0D])"

text \<open>\<^verbatim>\<open>String.prototype.trim\<close>.\<close>

definition trim :: "string \<Rightarrow> string" where
  "trim s = rev (dropWhile isWhiteSpace (rev (dropWhile isWhiteSpace s)))"

definition isDigit :: "char \<Rightarrow> bool" where
  "isDigit c = (48 \<le> (of_char c :: nat) \<and> (of_char c :: nat) \<le> 57)"

definition digitsValue :: "string \<Rightarrow> nat" where
  "digitsValue z = foldl (\<lambda>a c. 10 * a + ((of_char c :: nat) - 48)) 0 z"

text \<open>
  \<^verbatim>\<open>Number.parseInt(text, 10)\<close>: leading white space is skipped, one sign is read, then
  the longest prefix of decimal digits; no digit gives \<^verbatim>\<open>NaN\<close>. The result here is the
  whole number the digits denote; the source holds the nearest double, which is that same
  number when its magnitude is at most \<open>2^53\<close>.
\<close>

definition parseInt :: "string \<Rightarrow> int option" where
  "parseInt s =
     (let t = dropWhile isWhiteSpace s;
          sign = (case t of c # r \<Rightarrow> if c = CHR ''-'' then - 1 else 1 | [] \<Rightarrow> (1::int));
          u = (case t of c # r \<Rightarrow> if c = CHR ''-'' \<or> c = CHR ''+'' then r else t | [] \<Rightarrow> t);
          z = takeWhile isDigit u
      in if z = [] then None else Some (sign * int (digitsValue z)))"

text \<open>\<^verbatim>\<open>Number.isNaN(n) || n <= 0\<close>.\<close>

definition nanOrNonPositive :: "int option \<Rightarrow> bool" where
  "nanOrNonPositive n = (case n of None \<Rightarrow> True | Some v \<Rightarrow> v \<le> 0)"

text \<open>\<^verbatim>\<open>text || undefined\<close>.\<close>

definition orUndefined :: "string \<Rightarrow> string option" where
  "orUndefined s = (if s = [] then None else Some s)"

text \<open>
  \<^verbatim>\<open>booksById\<close>: a \<^verbatim>\<open>Map\<close> filled by \<^verbatim>\<open>forEach\<close>, so a later book with the same id
  replaces an earlier one.
\<close>

definition booksById :: "Book list \<Rightarrow> string \<Rightarrow> Book option" where
  "booksById bs = map_of (rev (map (\<lambda>book. (book_id book, book)) bs))"

section \<open>Mutations\<close>

definition handleBookSubmit ::
  "BookFormState \<Rightarrow> string \<Rightarrow> int \<Rightarrow> TrackerState \<Rightarrow> string option \<times> TrackerState" where
  "handleBookSubmit bookForm newId now prev =
     (let total = parseInt (totalPages_in bookForm) in
      if trim (title_in bookForm) = [] \<or> trim (author_in bookForm) = []
      then (Some ''Title and author are both required.'', prev)
      else if nanOrNonPositive total
      then (Some ''Total pages must be a positive number.'', prev)
      else
        let newBook =
          \<lparr> book_id = newId,
            title = trim (title_in bookForm),
            author = trim (author_in bookForm),
            totalPages = the total,
            currentPage = 0,
            status = NotStarted,
            startedAt = todayIso now,
            targetDate = orUndefined (targetDate_in bookForm),
            notes_opt = orUndefined (trim (notes_in bookForm)) \<rparr>
        in (None, prev\<lparr> books := newBook # books prev \<rparr>))"

text \<open>
  The comparator of the session sort,
  \<^verbatim>\<open>new Date(b.date).getTime() - new Date(a.date).getTime()\<close>; \<open>None\<close> is \<^verbatim>\<open>NaN\<close>,
  which \<^verbatim>\<open>Array.prototype.sort\<close> reads as \<open>0\<close>.
\<close>

definition compareSessions :: "ReadingSession \<Rightarrow> ReadingSession \<Rightarrow> int option" where
  "compareSessions a b =
     (case (getTime (date b), getTime (date a)) of
        (Some tb, Some ta) \<Rightarrow> Some (tb - ta)
      | _ \<Rightarrow> None)"

text \<open>
  \<^verbatim>\<open>Array.prototype.sort\<close> is a stable sort under the comparator: descending by date,
  equal dates in their previous order. With an invalid date in the array the comparator
  is inconsistent and the language leaves the order open; the model then still returns
  the stable insertion order below, and nothing proved here depends on the order.
\<close>

fun insertSession :: "ReadingSession \<Rightarrow> ReadingSession list \<Rightarrow> ReadingSession list" where
  "insertSession x [] = [x]"
| "insertSession x (y # ys) =
     (case compareSessions x y of
        None \<Rightarrow> x # y # ys
      | Some c \<Rightarrow> if c \<le> 0 then x # y # ys else y # insertSession x ys)"

definition sortSessions :: "ReadingSession list \<Rightarrow> ReadingSession list" where
  "sortSessions xs = foldr insertSession xs []"

definition clampedPages :: "Book \<Rightarrow> int \<Rightarrow> int" where
  "clampedPages book pages =
     clamp pages 1 (max (totalPages book - currentPage book) pages)"

text \<open>
  The update of a book by \<^verbatim>\<open>handleSessionSubmit\<close>. The sum is exact here; the source
  adds doubles, which gives the same number while the sum is at most \<open>2^53\<close>.
\<close>

definition logOnBook :: "string \<Rightarrow> int \<Rightarrow> Book \<Rightarrow> Book" where
  "logOnBook bid cp item =
     (if book_id item = bid
      then item\<lparr> currentPage := clamp (currentPage item + cp) 0 (totalPages item),
                 status := (if currentPage item + cp \<ge> totalPages item
                            then Completed else InProgress) \<rparr>
      else item)"

definition handleSessionSubmit ::
  "SessionFormState \<Rightarrow> string \<Rightarrow> TrackerState \<Rightarrow> string option \<times> TrackerState" where
  "handleSessionSubmit sessionForm newId prev =
     (if bookId_in sessionForm = []
      then (Some ''Please pick a book before logging a session.'', prev)
      else case booksById (books prev) (bookId_in sessionForm) of
        None \<Rightarrow> (Some ''Selected book no longer exists.'', prev)
      | Some book \<Rightarrow>
          let pages = parseInt (pagesRead_in sessionForm);
              mins = parseInt (minutes_in sessionForm)
          in if nanOrNonPositive pages
             then (Some ''Pages read must be a positive number.'', prev)
             else if nanOrNonPositive mins
             then (Some ''Minutes must be a positive number.'', prev)
             else
               let cp = clampedPages book (the pages);
                   newSession =
                     \<lparr> session_id = newId,
                       bookId = book_id book,
                       date = date_in sessionForm,
                       pagesRead = cp,
                       minutes = the mins,
                       note_opt = orUndefined (trim (note_in sessionForm)) \<rparr>
               in (None,
                   prev\<lparr> sessions := sortSessions (newSession # sessions prev),
                         books := map (logOnBook (book_id book) cp) (books prev) \<rparr>))"

definition progressOnBook :: "string \<Rightarrow> int \<Rightarrow> Book \<Rightarrow> Book" where
  "progressOnBook bid v book =
     (if book_id book = bid
      then book\<lparr> currentPage := clamp v 0 (totalPages book),
                 status := (if v \<ge> totalPages book then Completed
                            else if v = 0 then NotStarted else InProgress) \<rparr>
      else book)"

definition updateBookProgress :: "string \<Rightarrow> int \<Rightarrow> TrackerState \<Rightarrow> TrackerState" where
  "updateBookProgress bid v prev = prev\<lparr> books := map (progressOnBook bid v) (books prev) \<rparr>"

text \<open>
  The update of a book by \<^verbatim>\<open>removeSession\<close>. The difference is exact here; the source
  subtracts doubles, which gives the same number while both operands are whole numbers of
  magnitude at most \<open>2^53\<close>.
\<close>

definition unlogOnBook :: "ReadingSession \<Rightarrow> Book \<Rightarrow> Book" where
  "unlogOnBook session item =
     (if book_id item = bookId session
      then item\<lparr> currentPage := clamp (currentPage item - pagesRead session) 0 (totalPages item),
                 status := (if currentPage item - pagesRead session \<le> 0
                            then NotStarted else InProgress) \<rparr>
      else item)"

definition removeSession :: "string \<Rightarrow> TrackerState \<Rightarrow> TrackerState" where
  "removeSession sessionId prev =
     (case find (\<lambda>item. session_id item = sessionId) (sessions prev) of
        None \<Rightarrow> prev
      | Some session \<Rightarrow>
          prev\<lparr> sessions := filter (\<lambda>item. session_id item \<noteq> sessionId) (sessions prev),
                books := map (unlogOnBook session) (books prev) \<rparr>)"

section \<open>Derived statistics\<close>












section \<open>Loading the persisted state\<close>

text \<open>
  What \<^verbatim>\<open>JSON.parse\<close> returns, and \<^verbatim>\<open>undefined\<close> for a property that is absent. The
  pairs of a \<open>JObj\<close> are the own properties of the object, with distinct keys.
\<close>

datatype jsvalue =
    JUndefined
  | JNull
  | JBool bool
  | JNum int
  | JStr string
  | JArr "jsvalue list"
  | JObj "(string \<times> jsvalue) list"

text \<open>The property key of an array index: its decimal text.\<close>

fun indexKey :: "nat \<Rightarrow> string" where
  "indexKey n =
     (if n < 10 then [char_of (48 + n)]
      else indexKey (n div 10) @ [char_of (48 + n mod 10)])"

declare indexKey.simps [simp del]

text \<open>
  The own enumerable properties an object spread copies: those of an object, the indexed
  elements of an array or of a string, none of \<^verbatim>\<open>null\<close>, \<^verbatim>\<open>undefined\<close>, a number or a
  boolean.
\<close>

fun ownProperties :: "jsvalue \<Rightarrow> (string \<times> jsvalue) list" where
  "ownProperties (JObj kvs) = kvs"
| "ownProperties (JArr xs) = zip (map indexKey [0..<length xs]) xs"
| "ownProperties (JStr s) = zip (map indexKey [0..<length s]) (map (\<lambda>c. JStr [c]) s)"
| "ownProperties JUndefined = []"
| "ownProperties JNull = []"
| "ownProperties (JBool b) = []"
| "ownProperties (JNum n) = []"

text \<open>\<^verbatim>\<open>{ ...target, ...v }\<close>: each copied property replaces or extends the target.\<close>

definition spreadInto :: "(string \<times> jsvalue) list \<Rightarrow> jsvalue \<Rightarrow> (string \<times> jsvalue) list" where
  "spreadInto target v = fold (\<lambda>(k, x) acc. AList.update k x acc) (ownProperties v) target"

text \<open>
  \<^verbatim>\<open>parsed.preferences\<close>: a \<^verbatim>\<open>TypeError\<close> (\<open>None\<close>) on \<^verbatim>\<open>null\<close> and \<^verbatim>\<open>undefined\<close>;
  arrays, strings, numbers and booleans have no property of that name.
\<close>

fun getPreferences :: "jsvalue \<Rightarrow> jsvalue option" where
  "getPreferences JUndefined = None"
| "getPreferences JNull = None"
| "getPreferences (JObj kvs) =
     Some (case map_of kvs ''preferences'' of None \<Rightarrow> JUndefined | Some v \<Rightarrow> v)"
| "getPreferences (JBool b) = Some JUndefined"
| "getPreferences (JNum n) = Some JUndefined"
| "getPreferences (JStr s) = Some JUndefined"
| "getPreferences (JArr xs) = Some JUndefined"

definition preferencesObject :: "Preferences \<Rightarrow> (string \<times> jsvalue) list" where
  "preferencesObject p =
     [(''weeklyMinutesGoal'', JNum (weeklyMinutesGoal p)),
      (''dailyPagesGoal'', JNum (dailyPagesGoal p)),
      (''showCompleted'', JBool (showCompleted p))]"

text \<open>\<^verbatim>\<open>DEFAULT_STATE\<close> as the object the spread reads.\<close>

definition DEFAULT_STATE_object :: "(string \<times> jsvalue) list" where
  "DEFAULT_STATE_object =
     [(''books'', JArr []),
      (''sessions'', JArr []),
      (''preferences'', JObj (preferencesObject (preferences DEFAULT_STATE)))]"

text \<open>
  The load effect of \<^verbatim>\<open>Home\<close>. \<open>JSON_parse\<close> is the platform's parser, \<open>None\<close> where it
  throws; \<open>raw\<close> is what \<^verbatim>\<open>localStorage.getItem\<close> returned, \<open>None\<close> for \<^verbatim>\<open>null\<close>. The
  result is the tracker state once the effect has run: the merged object where
  \<^verbatim>\<open>setState\<close> was reached, the initial \<^verbatim>\<open>DEFAULT_STATE\<close> where \<^verbatim>\<open>raw\<close> was falsy or
  the \<^verbatim>\<open>catch\<close> swallowed an exception.
\<close>

definition loadEffect ::
  "(string \<Rightarrow> jsvalue option) \<Rightarrow> string option \<Rightarrow> (string \<times> jsvalue) list" where
  "loadEffect JSON_parse raw =
     (case raw of
        None \<Rightarrow> DEFAULT_STATE_object
      | Some r \<Rightarrow>
          if r = [] then DEFAULT_STATE_object
          else
            (case JSON_parse r of
               None \<Rightarrow> DEFAULT_STATE_object
             | Some parsed \<Rightarrow>
                 (case getPreferences parsed of
                    None \<Rightarrow> DEFAULT_STATE_object
                  | Some prefs \<Rightarrow>
                      AList.update ''preferences''
                        (JObj (spreadInto
                                 (spreadInto [] (JObj (preferencesObject (preferences DEFAULT_STATE))))
                                 prefs))
                        (spreadInto (spreadInto [] (JObj DEFAULT_STATE_object)) parsed))))"

section \<open>Operations and reachable states\<close>

text \<open>
  The operations of the engine with everything they read besides the state: the form,
  the identifier \<^verbatim>\<open>safeId()\<close> returns, the clock.
\<close>

datatype operation =
    AddBook BookFormState string int
  | LogSession SessionFormState string
  | RemoveSession string
  | SetBookProgress string int

fun perform :: "operation \<Rightarrow> TrackerState \<Rightarrow> TrackerState" where
  "perform (AddBook bookForm newId now) st = snd (handleBookSubmit bookForm newId now st)"
| "perform (LogSession sessionForm newId) st = snd (handleSessionSubmit sessionForm newId st)"
| "perform (RemoveSession sessionId) st = removeSession sessionId st"
| "perform (SetBookProgress bid v) st = updateBookProgress bid v st"

text \<open>
  The states reachable from \<^verbatim>\<open>DEFAULT_STATE\<close> by operations that \<open>allowed\<close> admits
  in the state they are issued in.
\<close>

inductive reachable :: "(TrackerState \<Rightarrow> operation \<Rightarrow> bool) \<Rightarrow> TrackerState \<Rightarrow> bool"
  for allowed :: "TrackerState \<Rightarrow> operation \<Rightarrow> bool" where
  start: "reachable allowed DEFAULT_STATE"
| step: "reachable allowed st \<Longrightarrow> allowed st op \<Longrightarrow> reachable allowed (perform op st)"

text \<open>Every operation, with any argument.\<close>

definition anyOperation :: "TrackerState \<Rightarrow> operation \<Rightarrow> bool" where
  "anyOperation st op = True"

text \<open>Every operation, a manual progress value being zero or more.\<close>

fun nonNegativeProgress :: "TrackerState \<Rightarrow> operation \<Rightarrow> bool" where
  "nonNegativeProgress st (SetBookProgress bid v) = (0 \<le> v)"
| "nonNegativeProgress st (AddBook bookForm newId now) = True"
| "nonNegativeProgress st (LogSession sessionForm newId) = True"
| "nonNegativeProgress st (RemoveSession sessionId) = True"

text \<open>
  The session ledger: adding a book, logging and removing sessions, no manual progress;
  \<^verbatim>\<open>safeId()\<close> returns an identifier that is not in use.
\<close>

fun ledgerOperation :: "TrackerState \<Rightarrow> operation \<Rightarrow> bool" where
  "ledgerOperation st (AddBook bookForm newId now) = (newId \<notin> book_id ` set (books st))"
| "ledgerOperation st (LogSession sessionForm newId) = (newId \<notin> session_id ` set (sessions st))"
| "ledgerOperation st (RemoveSession sessionId) = True"
| "ledgerOperation st (SetBookProgress bid v) = False"

text \<open>The entered pages of a session form fit into what is left of the selected book.\<close>

definition fitsRemaining :: "TrackerState \<Rightarrow> SessionFormState \<Rightarrow> bool" where
  "fitsRemaining st sessionForm =
     (case (booksById (books st) (bookId_in sessionForm), parseInt (pagesRead_in sessionForm)) of
        (Some book, Some pages) \<Rightarrow> currentPage book + pages \<le> totalPages book
      | _ \<Rightarrow> True)"

fun fittingLedgerOperation :: "TrackerState \<Rightarrow> operation \<Rightarrow> bool" where
  "fittingLedgerOperation st (LogSession sessionForm newId) =
     (ledgerOperation st (LogSession sessionForm newId) \<and> fitsRemaining st sessionForm)"
| "fittingLedgerOperation st (AddBook bookForm newId now) =
     ledgerOperation st (AddBook bookForm newId now)"
| "fittingLedgerOperation st (RemoveSession sessionId) = True"
| "fittingLedgerOperation st (SetBookProgress bid v) = False"

text \<open>
  \<open>2^52\<close>. A double holds every whole number of magnitude up to \<open>2^53\<close> exactly, so the
  source adds and subtracts two whole numbers between 0 and this limit without rounding,
  as the model does, and \<^verbatim>\<open>Number.parseInt\<close> returns a number up to this limit as it is
  written.
\<close>

definition exactLimit :: int where
  "exactLimit = 4503599627370496"

text \<open>Every number the operation enters (pages of a book, pages and minutes read) is at most \<open>exactLimit\<close>.\<close>

fun withinExactRange :: "operation \<Rightarrow> bool" where
  "withinExactRange (AddBook bookForm newId now) =
     (case parseInt (totalPages_in bookForm) of
        None \<Rightarrow> True
      | Some pageTotal \<Rightarrow> pageTotal \<le> exactLimit)"
| "withinExactRange (LogSession sessionForm newId) =
     ((case parseInt (pagesRead_in sessionForm) of
         None \<Rightarrow> True
       | Some pages \<Rightarrow> pages \<le> exactLimit) \<and>
      (case parseInt (minutes_in sessionForm) of
         None \<Rightarrow> True
       | Some mins \<Rightarrow> mins \<le> exactLimit))"
| "withinExactRange (RemoveSession sessionId) = True"
| "withinExactRange (SetBookProgress bid v) = True"

definition exactNonNegativeProgress :: "TrackerState \<Rightarrow> operation \<Rightarrow> bool" where
  "exactNonNegativeProgress st op = (nonNegativeProgress st op \<and> withinExactRange op)"

definition exactFittingLedgerOperation :: "TrackerState \<Rightarrow> operation \<Rightarrow> bool" where
  "exactFittingLedgerOperation st op = (fittingLedgerOperation st op \<and> withinExactRange op)"

section \<open>Properties the specification names\<close>

text \<open>The status the specification derives from the page counts.\<close>

definition statusConsistent :: "Book \<Rightarrow> bool" where
  "statusConsistent book =
     ((status book = Completed \<longleftrightarrow> currentPage book \<ge> totalPages book) \<and>
      (status book = NotStarted \<longleftrightarrow> currentPage book = 0) \<and>
      (status book = InProgress \<longleftrightarrow>
         \<not> currentPage book \<ge> totalPages book \<and> currentPage book \<noteq> 0))"

text \<open>The sum of the stored \<^verbatim>\<open>pagesRead\<close> of the sessions of a book.\<close>

definition ledgerSum :: "TrackerState \<Rightarrow> Book \<Rightarrow> int" where
  "ledgerSum st book =
     sum_list (map pagesRead (filter (\<lambda>session. bookId session = book_id book) (sessions st)))"




section \<open>Example inputs\<close>

text \<open>The book of the specification's example: 100 pages, 90 of them read.\<close>

definition exampleBook :: Book where
  "exampleBook =
     \<lparr> book_id = ''b1'', title = ''Dune'', author = ''Herbert'', totalPages = 100,
       currentPage = 90, status = InProgress, startedAt = IsoDay 19000,
       targetDate = None, notes_opt = None \<rparr>"

definition exampleState :: TrackerState where
  "exampleState =
     \<lparr> books = [exampleBook], sessions = [], preferences = preferences DEFAULT_STATE \<rparr>"

text \<open>A session form for that book: 50 pages in 30 minutes.\<close>

definition exampleSessionForm :: SessionFormState where
  "exampleSessionForm =
     \<lparr> bookId_in = ''b1'', date_in = IsoDay 19001, pagesRead_in = ''50'',
       minutes_in = ''30'', note_in = [] \<rparr>"

text \<open>A book form for a book of 100 pages.\<close>

definition exampleBookForm :: BookFormState where
  "exampleBookForm =
     \<lparr> title_in = ''Dune'', author_in = ''Herbert'', totalPages_in = ''100'',
       targetDate_in = [], notes_in = [] \<rparr>"

text \<open>A finished book with one session of 5 pages that was logged when it was full.\<close>

definition fullBookState :: TrackerState where
  "fullBookState =
     \<lparr> books = [exampleBook\<lparr> currentPage := 100, status := Completed \<rparr>],
       sessions = [\<lparr> session_id = ''s9'', bookId = ''b1'', date = IsoDay 19001,
                     pagesRead = 5, minutes = 10, note_opt = None \<rparr>],
       preferences = preferences DEFAULT_STATE \<rparr>"

section \<open>Invariants\<close>

text \<open>A book as the data model describes it: the page counts in range, the status derived.\<close>

definition bookWellFormed :: "Book \<Rightarrow> bool" where
  "bookWellFormed book =
     (0 < totalPages book \<and> 0 \<le> currentPage book \<and> currentPage book \<le> totalPages book \<and>
      statusConsistent book)"

definition statusInvariant :: "TrackerState \<Rightarrow> bool" where
  "statusInvariant st =
     (list_all bookWellFormed (books st) \<and>
      list_all (\<lambda>session. 1 \<le> pagesRead session) (sessions st))"

text \<open>A new book of 100 pages whose progress is then set to \<open>-5\<close>.\<close>

definition negativeProgressState :: TrackerState where
  "negativeProgressState =
     perform (SetBookProgress ''b1'' (- 5)) (perform (AddBook exampleBookForm ''b1'' 0) DEFAULT_STATE)"

text \<open>A new book of 100 pages, a session of 50 pages, then the progress set to 40.\<close>

definition progressedState :: TrackerState where
  "progressedState =
     perform (SetBookProgress ''b1'' 40)
       (perform (LogSession exampleSessionForm ''s1'')
          (perform (AddBook exampleBookForm ''b1'' 0) DEFAULT_STATE))"

text \<open>
  The ledger invariant: identifiers are distinct, every session has at least one page and
  names a book of the list, and every book's \<open>currentPage\<close> is within \<open>totalPages\<close> and
  equals the sum of its sessions.
\<close>

definition ledgerInvariant :: "TrackerState \<Rightarrow> bool" where
  "ledgerInvariant st =
     (distinct (map book_id (books st)) \<and>
      distinct (map session_id (sessions st)) \<and>
      list_all (\<lambda>session. 1 \<le> pagesRead session \<and> bookId session \<in> book_id ` set (books st))
        (sessions st) \<and>
      list_all (\<lambda>book. currentPage book \<le> totalPages book \<and> ledgerSum st book = currentPage book)
        (books st))"

text \<open>A new book of 100 pages, a session of 100 pages, then a session of 5 pages.\<close>

definition overfullLedgerState :: TrackerState where
  "overfullLedgerState =
     perform (LogSession (exampleSessionForm\<lparr> pagesRead_in := ''5'' \<rparr>) ''s2'')
       (perform (LogSession (exampleSessionForm\<lparr> pagesRead_in := ''100'' \<rparr>) ''s1'')
          (perform (AddBook exampleBookForm ''b1'' 0) DEFAULT_STATE))"

text \<open>
  A new book of 100 pages, a session of 50 pages, a session of 30 pages, then the first
  session removed.
\<close>

definition fittingLedgerState :: TrackerState where
  "fittingLedgerState =
     perform (RemoveSession ''s1'')
       (perform (LogSession (exampleSessionForm\<lparr> pagesRead_in := ''30'' \<rparr>) ''s2'')
          (perform (LogSession exampleSessionForm ''s1'')
             (perform (AddBook exampleBookForm ''b1'' 0) DEFAULT_STATE)))"

section \<open>Days with sessions\<close>





section \<open>Example time zones\<close>



section \<open>Example stored texts\<close>

text \<open>
  A parser for the examples: the text \<open>blob\<close> is an object with books and sessions and no
  preferences, the text \<open>partial\<close> one whose preferences hold a weekly goal only, and any
  other text does not parse.
\<close>

definition exampleBlob :: "(string \<times> jsvalue) list" where
  "exampleBlob =
     [(''books'', JArr [JObj [(''id'', JStr ''b1''), (''totalPages'', JNum 100)]]),
      (''sessions'', JArr [])]"

definition examplePartialBlob :: "(string \<times> jsvalue) list" where
  "examplePartialBlob =
     [(''books'', JArr []),
      (''preferences'', JObj [(''weeklyMinutesGoal'', JNum 100)])]"

definition exampleParse :: "string \<Rightarrow> jsvalue option" where
  "exampleParse text =
     (if text = ''blob'' then Some (JObj exampleBlob)
      else if text = ''partial'' then Some (JObj examplePartialBlob)
      else None)"

section \<open>Facts about the helpers\<close>

lemmas parse_defs = parseInt_def isWhiteSpace_def isDigit_def digitsValue_def Let_def

lemmas example_defs =
  exampleBook_def exampleState_def exampleSessionForm_def exampleBookForm_def
  fullBookState_def DEFAULT_STATE_def

lemmas submit_defs =
  handleSessionSubmit_def handleBookSubmit_def booksById_def nanOrNonPositive_def
  clampedPages_def clamp_def sortSessions_def compareSessions_def logOnBook_def
  orUndefined_def trim_def todayIso_def msPerDay_def

lemma clampedPages_raw: "1 \<le> pages \<Longrightarrow> clampedPages book pages = pages"
  by (simp add: clampedPages_def clamp_def)

lemma booksById_id: "booksById bs k = Some b \<Longrightarrow> book_id b = k"
  unfolding booksById_def by (auto dest!: map_of_SomeD)

lemma booksById_mem: "booksById bs k = Some b \<Longrightarrow> b \<in> set bs"
  unfolding booksById_def by (auto dest!: map_of_SomeD)

lemma booksById_None: "booksById bs k = None \<longleftrightarrow> k \<notin> book_id ` set bs"
  unfolding booksById_def by (auto simp: map_of_eq_None_iff image_image)

lemma handleSessionSubmit_success:
  assumes "handleSessionSubmit sessionForm newId st = (None, st')"
  shows "\<exists>book pages mins.
           booksById (books st) (bookId_in sessionForm) = Some book \<and>
           parseInt (pagesRead_in sessionForm) = Some pages \<and> 0 < pages \<and>
           parseInt (minutes_in sessionForm) = Some mins \<and> 0 < mins \<and>
           st' = st\<lparr> sessions := sortSessions
                     (\<lparr> session_id = newId, bookId = bookId_in sessionForm,
                        date = date_in sessionForm, pagesRead = pages, minutes = mins,
                        note_opt = orUndefined (trim (note_in sessionForm)) \<rparr> # sessions st),
                   books := map (logOnBook (bookId_in sessionForm) pages) (books st) \<rparr>"
  using assms
  by (auto simp: handleSessionSubmit_def Let_def nanOrNonPositive_def clampedPages_raw
      booksById_id split: if_splits option.splits)

section \<open>Logging a session\<close>

text \<open>
  C3. The claim: on a book with \<open>currentPage < totalPages\<close> the stored \<open>pagesRead\<close> never
  exceeds the remaining pages. The source evaluated on the book with 100 pages, 90 read,
  and 50 entered pages: the session is logged, its stored \<open>pagesRead\<close> is the entered 50,
  and the remaining pages are 10. The upper bound of the clamp is the larger of the
  remaining pages and the entered value, so the entered value always passes.
\<close>

theorem logSession_stores_entered_pages_example:
  "fst (handleSessionSubmit exampleSessionForm ''s1'' exampleState) = None \<and>
   map pagesRead (sessions (snd (handleSessionSubmit exampleSessionForm ''s1'' exampleState))) = [50] \<and>
   currentPage exampleBook < totalPages exampleBook \<and>
   totalPages exampleBook - currentPage exampleBook = 10 \<and>
   clampedPages exampleBook 50 = 50"
  by (simp add: example_defs submit_defs parse_defs)

text \<open>
  C7. A logged session whose entered pages exceed the remaining pages of the selected
  book sets that book's \<open>currentPage\<close> to exactly \<open>totalPages\<close> and its status to
  completed; \<open>totalPages\<close> itself is unchanged. (The book is the one at any position \<open>i\<close>
  of the list that carries the selected id.)
\<close>

theorem logSession_overshoot_completes:
  assumes "handleSessionSubmit sessionForm newId st = (None, st')"
    and "parseInt (pagesRead_in sessionForm) = Some pages"
    and "i < length (books st)"
    and "book_id (books st ! i) = bookId_in sessionForm"
    and "currentPage (books st ! i) < totalPages (books st ! i)"
    and "pages > totalPages (books st ! i) - currentPage (books st ! i)"
  shows "currentPage (books st' ! i) = totalPages (books st ! i) \<and>
         status (books st' ! i) = Completed \<and>
         totalPages (books st' ! i) = totalPages (books st ! i)"
proof -
  from handleSessionSubmit_success[OF assms(1)] assms(2)
  have "books st' = map (logOnBook (bookId_in sessionForm) pages) (books st)"
    by auto
  then have "books st' ! i = logOnBook (bookId_in sessionForm) pages (books st ! i)"
    using assms(3) by simp
  then show ?thesis
    using assms(4,6) by (simp add: logOnBook_def clamp_def)
qed

theorem logSession_overshoot_completes_witness:
  "handleSessionSubmit exampleSessionForm ''s1'' exampleState
     = (None, snd (handleSessionSubmit exampleSessionForm ''s1'' exampleState)) \<and>
   currentPage (books exampleState ! 0) = 90 \<and>
   totalPages (books exampleState ! 0) = 100 \<and>
   currentPage (books (snd (handleSessionSubmit exampleSessionForm ''s1'' exampleState)) ! 0) = 100 \<and>
   status (books (snd (handleSessionSubmit exampleSessionForm ''s1'' exampleState)) ! 0) = Completed"
proof -
  have ok: "handleSessionSubmit exampleSessionForm ''s1'' exampleState
              = (None, snd (handleSessionSubmit exampleSessionForm ''s1'' exampleState))"
    by (simp add: example_defs submit_defs parse_defs)
  have pages: "parseInt (pagesRead_in exampleSessionForm) = Some 50"
    by (simp add: example_defs parse_defs)
  have "currentPage (books (snd (handleSessionSubmit exampleSessionForm ''s1'' exampleState)) ! 0)
          = totalPages (books exampleState ! 0) \<and>
        status (books (snd (handleSessionSubmit exampleSessionForm ''s1'' exampleState)) ! 0)
          = Completed \<and>
        totalPages (books (snd (handleSessionSubmit exampleSessionForm ''s1'' exampleState)) ! 0)
          = totalPages (books exampleState ! 0)"
    by (rule logSession_overshoot_completes[OF ok pages]) (simp_all add: example_defs)
  moreover have "currentPage (books exampleState ! 0) = 90 \<and> totalPages (books exampleState ! 0) = 100"
    by (simp add: example_defs)
  ultimately show ?thesis
    using ok by simp
qed

section \<open>Facts about the session list and the handlers\<close>

lemma set_insertSession: "set (insertSession x ys) = insert x (set ys)"
  by (induction ys) (auto split: option.splits)

lemma set_sortSessions: "set (sortSessions xs) = set xs"
  unfolding sortSessions_def by (induction xs) (simp_all add: set_insertSession)

lemma find_unique:
  assumes "x \<in> set xs" and "P x" and "\<And>y. y \<in> set xs \<Longrightarrow> P y \<Longrightarrow> y = x"
  shows "find P xs = Some x"
  using assms
proof (induction xs)
  case Nil
  then show ?case by simp
next
  case (Cons a xs)
  show ?case
  proof (cases "P a")
    case True
    have "a = x"
      by (rule Cons.prems(3)) (simp_all add: True)
    with True show ?thesis by simp
  next
    case False
    with Cons.prems(2) have "x \<noteq> a"
      by auto
    with Cons.prems(1) have mem: "x \<in> set xs"
      by simp
    have "find P xs = Some x"
    proof (rule Cons.IH[OF mem Cons.prems(2)])
      fix y
      assume "y \<in> set xs" and "P y"
      then show "y = x"
        by (intro Cons.prems(3)) simp_all
    qed
    with False show ?thesis by simp
  qed
qed

lemma removeSession_found:
  assumes "find (\<lambda>item. session_id item = sessionId) (sessions st) = Some session"
  shows "books (removeSession sessionId st) = map (unlogOnBook session) (books st)"
  using assms by (simp add: removeSession_def)

lemma handleBookSubmit_cases:
  "handleBookSubmit bookForm newId now st =
     (if trim (title_in bookForm) = [] \<or> trim (author_in bookForm) = []
      then (Some ''Title and author are both required.'', st)
      else if nanOrNonPositive (parseInt (totalPages_in bookForm))
      then (Some ''Total pages must be a positive number.'', st)
      else (None, snd (handleBookSubmit bookForm newId now st)))"
  by (simp add: handleBookSubmit_def Let_def)

lemma handleSessionSubmit_cases:
  "handleSessionSubmit sessionForm newId st =
     (if bookId_in sessionForm = []
      then (Some ''Please pick a book before logging a session.'', st)
      else if booksById (books st) (bookId_in sessionForm) = None
      then (Some ''Selected book no longer exists.'', st)
      else if nanOrNonPositive (parseInt (pagesRead_in sessionForm))
      then (Some ''Pages read must be a positive number.'', st)
      else if nanOrNonPositive (parseInt (minutes_in sessionForm))
      then (Some ''Minutes must be a positive number.'', st)
      else (None, snd (handleSessionSubmit sessionForm newId st)))"
  by (simp add: handleSessionSubmit_def Let_def split: option.split)

lemma handleBookSubmit_rejected:
  assumes "trim (title_in bookForm) = [] \<or> trim (author_in bookForm) = [] \<or>
           nanOrNonPositive (parseInt (totalPages_in bookForm))"
  shows "fst (handleBookSubmit bookForm newId now st) \<noteq> None \<and>
         snd (handleBookSubmit bookForm newId now st) = st"
proof (cases "trim (title_in bookForm) = [] \<or> trim (author_in bookForm) = []")
  case True
  then show ?thesis
    by (subst (1 2) handleBookSubmit_cases) simp
next
  case False
  with assms have "nanOrNonPositive (parseInt (totalPages_in bookForm))"
    by simp
  with False show ?thesis
    by (subst (1 2) handleBookSubmit_cases) simp
qed

lemma handleBookSubmit_accepted:
  assumes "\<not> (trim (title_in bookForm) = [] \<or> trim (author_in bookForm) = [] \<or>
              nanOrNonPositive (parseInt (totalPages_in bookForm)))"
  shows "fst (handleBookSubmit bookForm newId now st) = None"
  using assms by (subst handleBookSubmit_cases) simp

lemma handleSessionSubmit_rejected:
  assumes "bookId_in sessionForm = [] \<or>
           booksById (books st) (bookId_in sessionForm) = None \<or>
           nanOrNonPositive (parseInt (pagesRead_in sessionForm)) \<or>
           nanOrNonPositive (parseInt (minutes_in sessionForm))"
  shows "fst (handleSessionSubmit sessionForm newId st) \<noteq> None \<and>
         snd (handleSessionSubmit sessionForm newId st) = st"
  using assms by (elim disjE; subst (1 2) handleSessionSubmit_cases; simp)

lemma handleSessionSubmit_accepted:
  assumes "\<not> (bookId_in sessionForm = [] \<or>
              booksById (books st) (bookId_in sessionForm) = None \<or>
              nanOrNonPositive (parseInt (pagesRead_in sessionForm)) \<or>
              nanOrNonPositive (parseInt (minutes_in sessionForm)))"
  shows "fst (handleSessionSubmit sessionForm newId st) = None"
  using assms by (subst handleSessionSubmit_cases) simp

section \<open>Rejected submissions\<close>

text \<open>
  C9. Adding a book fails when the title or the author is empty after trimming or the
  entered total is not a positive number; logging a session fails when no book is
  selected, the selected id is not the id of a book, or the entered pages or minutes are
  not a positive number. A submission fails when the handler sets an error message. In
  each of these cases, and whenever a handler sets an error message at all, the handler
  hands back the very state it was given: books, sessions and preferences are untouched.
\<close>

theorem failed_submit_leaves_state:
  "(trim (title_in bookForm) = [] \<or> trim (author_in bookForm) = [] \<or>
    nanOrNonPositive (parseInt (totalPages_in bookForm))
      \<longrightarrow> fst (handleBookSubmit bookForm newId now st) \<noteq> None \<and>
          snd (handleBookSubmit bookForm newId now st) = st) \<and>
   (bookId_in sessionForm = [] \<or> bookId_in sessionForm \<notin> book_id ` set (books st) \<or>
    nanOrNonPositive (parseInt (pagesRead_in sessionForm)) \<or>
    nanOrNonPositive (parseInt (minutes_in sessionForm))
      \<longrightarrow> fst (handleSessionSubmit sessionForm newId' st) \<noteq> None \<and>
          snd (handleSessionSubmit sessionForm newId' st) = st) \<and>
   (fst (handleBookSubmit bookForm newId now st) \<noteq> None
      \<longrightarrow> snd (handleBookSubmit bookForm newId now st) = st) \<and>
   (fst (handleSessionSubmit sessionForm newId' st) \<noteq> None
      \<longrightarrow> snd (handleSessionSubmit sessionForm newId' st) = st)"
proof -
  have book: "trim (title_in bookForm) = [] \<or> trim (author_in bookForm) = [] \<or>
      nanOrNonPositive (parseInt (totalPages_in bookForm))
        \<longrightarrow> fst (handleBookSubmit bookForm newId now st) \<noteq> None \<and>
            snd (handleBookSubmit bookForm newId now st) = st"
    by (rule impI) (rule handleBookSubmit_rejected)
  have session: "bookId_in sessionForm = [] \<or> bookId_in sessionForm \<notin> book_id ` set (books st) \<or>
      nanOrNonPositive (parseInt (pagesRead_in sessionForm)) \<or>
      nanOrNonPositive (parseInt (minutes_in sessionForm))
        \<longrightarrow> fst (handleSessionSubmit sessionForm newId' st) \<noteq> None \<and>
            snd (handleSessionSubmit sessionForm newId' st) = st"
  proof
    assume "bookId_in sessionForm = [] \<or> bookId_in sessionForm \<notin> book_id ` set (books st) \<or>
            nanOrNonPositive (parseInt (pagesRead_in sessionForm)) \<or>
            nanOrNonPositive (parseInt (minutes_in sessionForm))"
    then have "bookId_in sessionForm = [] \<or>
               booksById (books st) (bookId_in sessionForm) = None \<or>
               nanOrNonPositive (parseInt (pagesRead_in sessionForm)) \<or>
               nanOrNonPositive (parseInt (minutes_in sessionForm))"
      by (simp only: booksById_None)
    then show "fst (handleSessionSubmit sessionForm newId' st) \<noteq> None \<and>
               snd (handleSessionSubmit sessionForm newId' st) = st"
      by (rule handleSessionSubmit_rejected)
  qed
  have book': "fst (handleBookSubmit bookForm newId now st) \<noteq> None
        \<longrightarrow> snd (handleBookSubmit bookForm newId now st) = st"
  proof
    assume failed: "fst (handleBookSubmit bookForm newId now st) \<noteq> None"
    show "snd (handleBookSubmit bookForm newId now st) = st"
    proof (cases "trim (title_in bookForm) = [] \<or> trim (author_in bookForm) = [] \<or>
                  nanOrNonPositive (parseInt (totalPages_in bookForm))")
      case True
      then show ?thesis
        by (rule handleBookSubmit_rejected[THEN conjunct2])
    next
      case False
      then have "fst (handleBookSubmit bookForm newId now st) = None"
        by (rule handleBookSubmit_accepted)
      with failed show ?thesis
        by simp
    qed
  qed
  have session': "fst (handleSessionSubmit sessionForm newId' st) \<noteq> None
        \<longrightarrow> snd (handleSessionSubmit sessionForm newId' st) = st"
  proof
    assume failed: "fst (handleSessionSubmit sessionForm newId' st) \<noteq> None"
    show "snd (handleSessionSubmit sessionForm newId' st) = st"
    proof (cases "bookId_in sessionForm = [] \<or>
                  booksById (books st) (bookId_in sessionForm) = None \<or>
                  nanOrNonPositive (parseInt (pagesRead_in sessionForm)) \<or>
                  nanOrNonPositive (parseInt (minutes_in sessionForm))")
      case True
      then show ?thesis
        by (rule handleSessionSubmit_rejected[THEN conjunct2])
    next
      case False
      then have "fst (handleSessionSubmit sessionForm newId' st) = None"
        by (rule handleSessionSubmit_accepted)
      with failed show ?thesis
        by simp
    qed
  qed
  show ?thesis
    by (rule conjI[OF book conjI[OF session conjI[OF book' session']]])
qed

theorem failed_submit_leaves_state_witness:
  "trim (title_in (exampleBookForm\<lparr> title_in := ''  '' \<rparr>)) = [] \<and>
   nanOrNonPositive (parseInt (pagesRead_in (exampleSessionForm\<lparr> pagesRead_in := ''0'' \<rparr>))) \<and>
   fst (handleBookSubmit (exampleBookForm\<lparr> title_in := ''  '' \<rparr>) ''b2'' 0 exampleState) \<noteq> None \<and>
   snd (handleBookSubmit (exampleBookForm\<lparr> title_in := ''  '' \<rparr>) ''b2'' 0 exampleState)
     = exampleState \<and>
   fst (handleSessionSubmit (exampleSessionForm\<lparr> pagesRead_in := ''0'' \<rparr>) ''s1'' exampleState)
     \<noteq> None \<and>
   snd (handleSessionSubmit (exampleSessionForm\<lparr> pagesRead_in := ''0'' \<rparr>) ''s1'' exampleState)
     = exampleState"
proof -
  have t: "trim (title_in (exampleBookForm\<lparr> title_in := ''  '' \<rparr>)) = []"
    by (simp add: trim_def isWhiteSpace_def)
  have p: "nanOrNonPositive (parseInt (pagesRead_in (exampleSessionForm\<lparr> pagesRead_in := ''0'' \<rparr>)))"
    by (simp add: nanOrNonPositive_def parse_defs)
  note inst = failed_submit_leaves_state
         [where bookForm = "exampleBookForm\<lparr> title_in := ''  '' \<rparr>"
            and sessionForm = "exampleSessionForm\<lparr> pagesRead_in := ''0'' \<rparr>"
            and st = exampleState and newId = "''b2''" and now = 0 and newId' = "''s1''"]
  have "trim (title_in (exampleBookForm\<lparr> title_in := ''  '' \<rparr>)) = [] \<or>
        trim (author_in (exampleBookForm\<lparr> title_in := ''  '' \<rparr>)) = [] \<or>
        nanOrNonPositive (parseInt (totalPages_in (exampleBookForm\<lparr> title_in := ''  '' \<rparr>)))"
    using t by (rule disjI1)
  with inst[THEN conjunct1]
  have book: "fst (handleBookSubmit (exampleBookForm\<lparr> title_in := ''  '' \<rparr>) ''b2'' 0 exampleState)
                \<noteq> None \<and>
              snd (handleBookSubmit (exampleBookForm\<lparr> title_in := ''  '' \<rparr>) ''b2'' 0 exampleState)
                = exampleState"
    by (rule mp)
  have "bookId_in (exampleSessionForm\<lparr> pagesRead_in := ''0'' \<rparr>) = [] \<or>
        bookId_in (exampleSessionForm\<lparr> pagesRead_in := ''0'' \<rparr>)
          \<notin> book_id ` set (books exampleState) \<or>
        nanOrNonPositive (parseInt (pagesRead_in (exampleSessionForm\<lparr> pagesRead_in := ''0'' \<rparr>))) \<or>
        nanOrNonPositive (parseInt (minutes_in (exampleSessionForm\<lparr> pagesRead_in := ''0'' \<rparr>)))"
    by (rule disjI2[OF disjI2[OF disjI1[OF p]]])
  with inst[THEN conjunct2, THEN conjunct1]
  have session: "fst (handleSessionSubmit (exampleSessionForm\<lparr> pagesRead_in := ''0'' \<rparr>) ''s1''
                   exampleState) \<noteq> None \<and>
                 snd (handleSessionSubmit (exampleSessionForm\<lparr> pagesRead_in := ''0'' \<rparr>) ''s1''
                   exampleState) = exampleState"
    by (rule mp)
  show ?thesis
    by (rule conjI[OF t conjI[OF p conjI[OF conjunct1[OF book] conjI[OF conjunct2[OF book] session]]]])
qed

section \<open>Removing a session\<close>

text \<open>
  C10. After removing a session that is present, every book that carries the session's
  \<open>bookId\<close> has status not-started or in-progress, never completed, whatever its status
  and page counts were before.
\<close>

theorem removeSession_never_completed:
  assumes "find (\<lambda>item. session_id item = sessionId) (sessions st) = Some session"
    and "book \<in> set (books (removeSession sessionId st))"
    and "book_id book = bookId session"
  shows "status book = NotStarted \<or> status book = InProgress"
proof -
  from assms(1,2) obtain item where "item \<in> set (books st)" and "book = unlogOnBook session item"
    by (auto simp: removeSession_found)
  then show ?thesis
    using assms(3) by (simp add: unlogOnBook_def split: if_splits)
qed

theorem removeSession_never_completed_witness:
  "find (\<lambda>item. session_id item = ''s9'') (sessions fullBookState)
     = Some (hd (sessions fullBookState)) \<and>
   map status (books fullBookState) = [Completed] \<and>
   books (removeSession ''s9'' fullBookState)
     = [exampleBook\<lparr> currentPage := 95, status := InProgress \<rparr>] \<and>
   status (exampleBook\<lparr> currentPage := 95, status := InProgress \<rparr>) = InProgress"
proof -
  have f: "find (\<lambda>item. session_id item = ''s9'') (sessions fullBookState)
             = Some (hd (sessions fullBookState))"
    by (simp add: fullBookState_def)
  have b: "books (removeSession ''s9'' fullBookState)
             = [exampleBook\<lparr> currentPage := 95, status := InProgress \<rparr>]"
    by (simp add: fullBookState_def exampleBook_def removeSession_def unlogOnBook_def clamp_def)
  have c: "map status (books fullBookState) = [Completed]"
    by (simp add: fullBookState_def)
  have "status (exampleBook\<lparr> currentPage := 95, status := InProgress \<rparr>) = NotStarted \<or>
        status (exampleBook\<lparr> currentPage := 95, status := InProgress \<rparr>) = InProgress"
  proof (rule removeSession_never_completed[OF f])
    show "exampleBook\<lparr> currentPage := 95, status := InProgress \<rparr>
            \<in> set (books (removeSession ''s9'' fullBookState))"
      by (simp only: b list.set insertI1)
    show "book_id (exampleBook\<lparr> currentPage := 95, status := InProgress \<rparr>)
            = bookId (hd (sessions fullBookState))"
      by (simp add: fullBookState_def exampleBook_def)
  qed
  then have "status (exampleBook\<lparr> currentPage := 95, status := InProgress \<rparr>) = InProgress"
    by simp
  with f c b show ?thesis
    by (intro conjI)
qed

section \<open>Logging and then removing a session\<close>

text \<open>
  C1, as stated: removing the session that was just logged restores the book's
  \<open>currentPage\<close>. On the finished book of 100 pages a session of 5 pages is accepted and
  leaves \<open>currentPage\<close> at 100; removing that session takes the stored 5 pages off and
  leaves 95.
\<close>

theorem log_then_remove_counterexample:
  "fst (handleSessionSubmit (exampleSessionForm\<lparr> pagesRead_in := ''5'' \<rparr>) ''s1'' fullBookState)
     = None \<and>
   ''s1'' \<notin> session_id ` set (sessions fullBookState) \<and>
   map currentPage (books fullBookState) = [100] \<and>
   map currentPage
     (books (removeSession ''s1''
        (snd (handleSessionSubmit (exampleSessionForm\<lparr> pagesRead_in := ''5'' \<rparr>) ''s1''
                fullBookState))))
     = [95]"
  by (simp add: example_defs submit_defs parse_defs removeSession_def unlogOnBook_def)

text \<open>
  C1, amended: for a book of at most \<open>2^52\<close> pages (so that the source's double
  arithmetic is exact), when the entered pages fit into the remaining pages of the book
  (\<open>currentPage + pagesRead \<le> totalPages\<close>, with \<open>currentPage\<close> not negative) and the
  identifier of the new session is not in use, removing the session that was just logged
  restores the book's \<open>currentPage\<close> to its value before the logging.
\<close>

theorem log_then_remove_restores_when_fitting:
  assumes "handleSessionSubmit sessionForm newId st = (None, st')"
    and "newId \<notin> session_id ` set (sessions st)"
    and "parseInt (pagesRead_in sessionForm) = Some pages"
    and "i < length (books st)"
    and "book_id (books st ! i) = bookId_in sessionForm"
    and "0 \<le> currentPage (books st ! i)"
    and "currentPage (books st ! i) + pages \<le> totalPages (books st ! i)"
    and "totalPages (books st ! i) \<le> exactLimit"
  shows "currentPage (books (removeSession newId st') ! i) = currentPage (books st ! i)"
proof -
  from handleSessionSubmit_success[OF assms(1)] assms(3)
  obtain mins where pos: "0 < pages"
    and st': "st' = st\<lparr> sessions := sortSessions
                     (\<lparr> session_id = newId, bookId = bookId_in sessionForm,
                        date = date_in sessionForm, pagesRead = pages, minutes = mins,
                        note_opt = orUndefined (trim (note_in sessionForm)) \<rparr> # sessions st),
                   books := map (logOnBook (bookId_in sessionForm) pages) (books st) \<rparr>"
    by auto
  define new where "new = \<lparr> session_id = newId, bookId = bookId_in sessionForm,
                        date = date_in sessionForm, pagesRead = pages, minutes = mins,
                        note_opt = orUndefined (trim (note_in sessionForm)) \<rparr>"
  have sessions': "sessions st' = sortSessions (new # sessions st)"
    and books': "books st' = map (logOnBook (bookId_in sessionForm) pages) (books st)"
    by (simp_all add: st' new_def)
  have found: "find (\<lambda>item. session_id item = newId) (sessions st') = Some new"
  proof (rule find_unique)
    show "new \<in> set (sessions st')"
      by (simp add: sessions' set_sortSessions)
    show "session_id new = newId"
      by (simp add: new_def)
    fix y
    assume "y \<in> set (sessions st')" and "session_id y = newId"
    then show "y = new"
      using assms(2) by (auto simp: sessions' set_sortSessions)
  qed
  have "books (removeSession newId st') ! i
          = unlogOnBook new (logOnBook (bookId_in sessionForm) pages (books st ! i))"
    using assms(4) by (simp add: removeSession_found[OF found] books')
  then show ?thesis
    using assms(5,6,7) pos by (simp add: unlogOnBook_def logOnBook_def clamp_def new_def)
qed

theorem log_then_remove_restores_when_fitting_witness:
  "handleSessionSubmit (exampleSessionForm\<lparr> pagesRead_in := ''10'' \<rparr>) ''s1'' exampleState
     = (None, snd (handleSessionSubmit (exampleSessionForm\<lparr> pagesRead_in := ''10'' \<rparr>) ''s1''
                     exampleState)) \<and>
   currentPage (books exampleState ! 0) + 10 \<le> totalPages (books exampleState ! 0) \<and>
   totalPages (books exampleState ! 0) \<le> exactLimit \<and>
   currentPage (books exampleState ! 0) = 90 \<and>
   currentPage (books (snd (handleSessionSubmit (exampleSessionForm\<lparr> pagesRead_in := ''10'' \<rparr>)
                              ''s1'' exampleState)) ! 0) = 100 \<and>
   currentPage
     (books (removeSession ''s1''
        (snd (handleSessionSubmit (exampleSessionForm\<lparr> pagesRead_in := ''10'' \<rparr>) ''s1''
                exampleState))) ! 0) = 90"
proof -
  have ok: "handleSessionSubmit (exampleSessionForm\<lparr> pagesRead_in := ''10'' \<rparr>) ''s1'' exampleState
     = (None, snd (handleSessionSubmit (exampleSessionForm\<lparr> pagesRead_in := ''10'' \<rparr>) ''s1''
                     exampleState))"
    by (simp add: example_defs submit_defs parse_defs)
  have fresh: "''s1'' \<notin> session_id ` set (sessions exampleState)"
    by (simp add: example_defs)
  have pages: "parseInt (pagesRead_in (exampleSessionForm\<lparr> pagesRead_in := ''10'' \<rparr>)) = Some 10"
    by (simp add: parse_defs)
  have before: "currentPage (books exampleState ! 0) = 90"
    and fits: "currentPage (books exampleState ! 0) + 10 \<le> totalPages (books exampleState ! 0)"
    and exact: "totalPages (books exampleState ! 0) \<le> exactLimit"
    by (simp_all add: example_defs exactLimit_def)
  have logged: "currentPage (books (snd (handleSessionSubmit
                   (exampleSessionForm\<lparr> pagesRead_in := ''10'' \<rparr>) ''s1'' exampleState)) ! 0) = 100"
    by (simp add: example_defs submit_defs parse_defs)
  have "currentPage
     (books (removeSession ''s1''
        (snd (handleSessionSubmit (exampleSessionForm\<lparr> pagesRead_in := ''10'' \<rparr>) ''s1''
                exampleState))) ! 0) = currentPage (books exampleState ! 0)"
    by (rule log_then_remove_restores_when_fitting[OF ok fresh pages _ _ _ fits exact])
      (simp_all add: example_defs)
  then show ?thesis
    using ok before fits exact logged by (simp only: simp_thms)
qed

section \<open>Status and page counts\<close>

lemma handleBookSubmit_outcome:
  "snd (handleBookSubmit bookForm newId now st) = st \<or>
   (\<exists>total. 0 < total \<and>
      snd (handleBookSubmit bookForm newId now st) =
        st\<lparr> books :=
             \<lparr> book_id = newId, title = trim (title_in bookForm),
               author = trim (author_in bookForm), totalPages = total, currentPage = 0,
               status = NotStarted, startedAt = todayIso now,
               targetDate = orUndefined (targetDate_in bookForm),
               notes_opt = orUndefined (trim (notes_in bookForm)) \<rparr> # books st \<rparr>)"
proof (cases "trim (title_in bookForm) = [] \<or> trim (author_in bookForm) = [] \<or>
              nanOrNonPositive (parseInt (totalPages_in bookForm))")
  case True
  then show ?thesis
    by (simp only: handleBookSubmit_rejected simp_thms)
next
  case False
  then obtain total where "parseInt (totalPages_in bookForm) = Some total" and "0 < total"
    by (cases "parseInt (totalPages_in bookForm)") (simp_all add: nanOrNonPositive_def)
  with False show ?thesis
    by (intro disjI2 exI[of _ total]) (simp add: handleBookSubmit_def Let_def)
qed

lemma handleSessionSubmit_outcome:
  "snd (handleSessionSubmit sessionForm newId st) = st \<or>
   (\<exists>book pages mins.
      booksById (books st) (bookId_in sessionForm) = Some book \<and>
      parseInt (pagesRead_in sessionForm) = Some pages \<and> 0 < pages \<and>
      snd (handleSessionSubmit sessionForm newId st) =
        st\<lparr> sessions := sortSessions
               (\<lparr> session_id = newId, bookId = bookId_in sessionForm,
                  date = date_in sessionForm, pagesRead = pages, minutes = mins,
                  note_opt = orUndefined (trim (note_in sessionForm)) \<rparr> # sessions st),
             books := map (logOnBook (bookId_in sessionForm) pages) (books st) \<rparr>)"
proof (cases "bookId_in sessionForm = [] \<or>
              booksById (books st) (bookId_in sessionForm) = None \<or>
              nanOrNonPositive (parseInt (pagesRead_in sessionForm)) \<or>
              nanOrNonPositive (parseInt (minutes_in sessionForm))")
  case True
  then show ?thesis
    by (simp only: handleSessionSubmit_rejected simp_thms)
next
  case False
  then have "fst (handleSessionSubmit sessionForm newId st) = None"
    by (rule handleSessionSubmit_accepted)
  then have "handleSessionSubmit sessionForm newId st
               = (None, snd (handleSessionSubmit sessionForm newId st))"
    by (simp add: prod_eq_iff)
  from handleSessionSubmit_success[OF this] show ?thesis
    by (intro disjI2) metis
qed

lemma statusInvariant_start: "statusInvariant DEFAULT_STATE"
  by (simp add: statusInvariant_def DEFAULT_STATE_def)

lemma logOnBook_wellFormed:
  assumes "bookWellFormed book" and "0 < pages"
  shows "bookWellFormed (logOnBook bid pages book)"
  using assms by (simp add: bookWellFormed_def statusConsistent_def logOnBook_def clamp_def)

lemma unlogOnBook_wellFormed:
  assumes "bookWellFormed book" and "1 \<le> pagesRead session"
  shows "bookWellFormed (unlogOnBook session book)"
  using assms by (simp add: bookWellFormed_def statusConsistent_def unlogOnBook_def clamp_def)

lemma progressOnBook_wellFormed:
  assumes "bookWellFormed book" and "0 \<le> v"
  shows "bookWellFormed (progressOnBook bid v book)"
  using assms by (simp add: bookWellFormed_def statusConsistent_def progressOnBook_def clamp_def)

lemma statusInvariant_AddBook:
  assumes "statusInvariant st"
  shows "statusInvariant (perform (AddBook bookForm newId now) st)"
  using handleBookSubmit_outcome[of bookForm newId now st]
proof
  assume "snd (handleBookSubmit bookForm newId now st) = st"
  with assms show ?thesis by simp
next
  assume "\<exists>total. 0 < total \<and>
      snd (handleBookSubmit bookForm newId now st) =
        st\<lparr> books :=
             \<lparr> book_id = newId, title = trim (title_in bookForm),
               author = trim (author_in bookForm), totalPages = total, currentPage = 0,
               status = NotStarted, startedAt = todayIso now,
               targetDate = orUndefined (targetDate_in bookForm),
               notes_opt = orUndefined (trim (notes_in bookForm)) \<rparr> # books st \<rparr>"
  then obtain total where "0 < total"
    and "perform (AddBook bookForm newId now) st =
        st\<lparr> books :=
             \<lparr> book_id = newId, title = trim (title_in bookForm),
               author = trim (author_in bookForm), totalPages = total, currentPage = 0,
               status = NotStarted, startedAt = todayIso now,
               targetDate = orUndefined (targetDate_in bookForm),
               notes_opt = orUndefined (trim (notes_in bookForm)) \<rparr> # books st \<rparr>"
    by auto
  with assms show ?thesis
    by (simp add: statusInvariant_def bookWellFormed_def statusConsistent_def)
qed

lemma statusInvariant_LogSession:
  assumes "statusInvariant st"
  shows "statusInvariant (perform (LogSession sessionForm newId) st)"
  using handleSessionSubmit_outcome[of sessionForm newId st]
proof (elim disjE exE conjE)
  assume "snd (handleSessionSubmit sessionForm newId st) = st"
  with assms show ?thesis by simp
next
  fix book pages mins
  assume "0 < pages"
    and "snd (handleSessionSubmit sessionForm newId st) =
        st\<lparr> sessions := sortSessions
               (\<lparr> session_id = newId, bookId = bookId_in sessionForm,
                  date = date_in sessionForm, pagesRead = pages, minutes = mins,
                  note_opt = orUndefined (trim (note_in sessionForm)) \<rparr> # sessions st),
             books := map (logOnBook (bookId_in sessionForm) pages) (books st) \<rparr>"
  with assms show ?thesis
    by (simp add: statusInvariant_def list_all_iff set_sortSessions logOnBook_wellFormed)
qed

lemma statusInvariant_RemoveSession:
  assumes "statusInvariant st"
  shows "statusInvariant (perform (RemoveSession sessionId) st)"
proof (cases "find (\<lambda>item. session_id item = sessionId) (sessions st)")
  case None
  with assms show ?thesis
    by (simp add: removeSession_def)
next
  case (Some session)
  then have "session \<in> set (sessions st)"
    by (auto simp: find_Some_iff)
  with assms have "1 \<le> pagesRead session"
    by (simp add: statusInvariant_def list_all_iff)
  with assms Some show ?thesis
    by (simp add: removeSession_def statusInvariant_def list_all_iff unlogOnBook_wellFormed)
qed

lemma statusInvariant_SetBookProgress:
  assumes "statusInvariant st" and "0 \<le> v"
  shows "statusInvariant (perform (SetBookProgress bid v) st)"
  using assms
  by (simp add: updateBookProgress_def statusInvariant_def list_all_iff progressOnBook_wellFormed)

lemma reachable_mono:
  assumes "reachable allowed st" and "\<And>st op. allowed st op \<Longrightarrow> allowed' st op"
  shows "reachable allowed' st"
  using assms(1)
proof (induction rule: reachable.induct)
  case start
  show ?case by (rule reachable.start)
next
  case (step st op)
  from step.IH assms(2)[OF step.hyps(2)] show ?case
    by (rule reachable.step)
qed

lemma statusInvariant_reachable:
  assumes "reachable nonNegativeProgress st"
  shows "statusInvariant st"
  using assms
proof (induction rule: reachable.induct)
  case start
  show ?case by (rule statusInvariant_start)
next
  case (step st op)
  then show ?case
    by (cases op)
      (simp_all only: statusInvariant_AddBook statusInvariant_LogSession
        statusInvariant_RemoveSession statusInvariant_SetBookProgress nonNegativeProgress.simps)
qed

text \<open>
  C2, as stated: in every state reachable by the four operations, a manual progress value
  being any integer, the status is completed exactly when \<open>currentPage \<ge> totalPages\<close>,
  not-started exactly when \<open>currentPage = 0\<close>, and in-progress otherwise. Setting the
  progress of a new book of 100 pages to \<open>-5\<close> is such a state: \<open>currentPage\<close> is clamped
  to 0 and the status, computed from the unclamped value, is in-progress.
\<close>

theorem status_consistency_counterexample:
  "reachable anyOperation negativeProgressState \<and>
   map currentPage (books negativeProgressState) = [0] \<and>
   map totalPages (books negativeProgressState) = [100] \<and>
   map status (books negativeProgressState) = [InProgress] \<and>
   \<not> list_all statusConsistent (books negativeProgressState)"
proof -
  have "reachable anyOperation negativeProgressState"
    unfolding negativeProgressState_def
    by (intro reachable.step reachable.start) (simp_all add: anyOperation_def)
  moreover have "books negativeProgressState =
    [\<lparr> book_id = ''b1'', title = ''Dune'', author = ''Herbert'', totalPages = 100,
       currentPage = 0, status = InProgress, startedAt = IsoDay 0, targetDate = None,
       notes_opt = None \<rparr>]"
    by (simp add: negativeProgressState_def example_defs submit_defs parse_defs
        updateBookProgress_def progressOnBook_def)
  ultimately show ?thesis
    by (simp add: statusConsistent_def)
qed

text \<open>
  C2, amended: in every state reachable from the default state by adding books, logging
  and removing sessions and setting a book's progress to a value that is zero or more
  (the progress slider ranges over \<open>0 \<dots> totalPages\<close>), where every entered number (the
  pages of a book, the pages and minutes of a session) is at most \<open>2^52\<close> so that the
  source's double arithmetic is exact, every book has status completed exactly when
  \<open>currentPage \<ge> totalPages\<close>, not-started exactly when \<open>currentPage = 0\<close>, and in-progress
  exactly when neither holds.
\<close>

theorem status_consistent_when_progress_not_negative:
  assumes "reachable exactNonNegativeProgress st" and "book \<in> set (books st)"
  shows "(status book = Completed \<longleftrightarrow> currentPage book \<ge> totalPages book) \<and>
         (status book = NotStarted \<longleftrightarrow> currentPage book = 0) \<and>
         (status book = InProgress \<longleftrightarrow>
            \<not> currentPage book \<ge> totalPages book \<and> currentPage book \<noteq> 0)"
proof -
  from assms(1) have "reachable nonNegativeProgress st"
    by (rule reachable_mono) (simp add: exactNonNegativeProgress_def)
  from statusInvariant_reachable[OF this] assms(2) have "statusConsistent book"
    by (simp add: statusInvariant_def list_all_iff bookWellFormed_def)
  then show ?thesis
    by (simp only: statusConsistent_def)
qed

theorem status_consistent_when_progress_not_negative_witness:
  "reachable exactNonNegativeProgress progressedState \<and>
   map currentPage (books progressedState) = [40] \<and>
   map totalPages (books progressedState) = [100] \<and>
   map status (books progressedState) = [InProgress] \<and>
   (status (hd (books progressedState)) = InProgress \<longleftrightarrow>
      \<not> currentPage (hd (books progressedState)) \<ge> totalPages (hd (books progressedState)) \<and>
      currentPage (hd (books progressedState)) \<noteq> 0)"
proof -
  have reach: "reachable exactNonNegativeProgress progressedState"
    unfolding progressedState_def
    by (intro reachable.step reachable.start)
      (simp_all add: exactNonNegativeProgress_def exactLimit_def exampleBookForm_def
        exampleSessionForm_def parse_defs)
  have bs: "books progressedState =
    [\<lparr> book_id = ''b1'', title = ''Dune'', author = ''Herbert'', totalPages = 100,
       currentPage = 40, status = InProgress, startedAt = IsoDay 0, targetDate = None,
       notes_opt = None \<rparr>]"
    by (simp add: progressedState_def example_defs submit_defs parse_defs
        updateBookProgress_def progressOnBook_def)
  have mem: "hd (books progressedState) \<in> set (books progressedState)"
    by (simp add: bs)
  from status_consistent_when_progress_not_negative[OF reach mem]
  have "status (hd (books progressedState)) = InProgress \<longleftrightarrow>
      \<not> currentPage (hd (books progressedState)) \<ge> totalPages (hd (books progressedState)) \<and>
      currentPage (hd (books progressedState)) \<noteq> 0"
    by (elim conjE)
  with reach show ?thesis
    by (simp add: bs)
qed

section \<open>The session ledger\<close>

lemma sum_filter_insertSession:
  "sum_list (map f (filter P (insertSession x ys))) = (sum_list (map f (filter P (x # ys))) :: int)"
  by (induction ys) (simp_all split: option.split)

lemma sum_filter_sortSessions:
  "sum_list (map f (filter P (sortSessions xs))) = (sum_list (map f (filter P xs)) :: int)"
  unfolding sortSessions_def
proof (induction xs)
  case Nil
  show ?case by simp
next
  case (Cons x xs)
  have "sum_list (map f (filter P (insertSession x (foldr insertSession xs []))))
          = sum_list (map f (filter P (x # foldr insertSession xs [])))"
    by (rule sum_filter_insertSession)
  with Cons show ?case by simp
qed

lemma distinct_insertSession:
  "distinct (map g (insertSession x ys)) \<longleftrightarrow> distinct (map g (x # ys))"
proof (induction ys)
  case Nil
  show ?case by simp
next
  case (Cons y ys)
  show ?case
  proof (cases "insertSession x (y # ys) = x # y # ys")
    case True
    then show ?thesis by simp
  next
    case False
    then have eq: "insertSession x (y # ys) = y # insertSession x ys"
      by (simp split: option.splits if_splits)
    have "distinct (map g (y # insertSession x ys))
            \<longleftrightarrow> g y \<notin> g ` insert x (set ys) \<and> distinct (map g (x # ys))"
      using Cons by (simp add: set_insertSession)
    also have "\<dots> \<longleftrightarrow> distinct (map g (x # y # ys))"
      by auto
    finally show ?thesis
      by (simp only: eq)
  qed
qed

lemma distinct_sortSessions:
  "distinct (map g (sortSessions xs)) \<longleftrightarrow> distinct (map g xs)"
  unfolding sortSessions_def
proof (induction xs)
  case Nil
  show ?case by simp
next
  case (Cons x xs)
  have "distinct (map g (insertSession x (foldr insertSession xs [])))
          \<longleftrightarrow> distinct (map g (x # foldr insertSession xs []))"
    by (rule distinct_insertSession)
  moreover have "set (foldr insertSession xs []) = set xs"
    using set_sortSessions[of xs] by (simp add: sortSessions_def)
  ultimately show ?case
    using Cons by simp
qed

lemma sum_filter_remove:
  assumes "distinct (map g xs)" and "x \<in> set xs"
  shows "sum_list (map f (filter P (filter (\<lambda>y. g y \<noteq> g x) xs)))
           = sum_list (map f (filter P xs)) - (if P x then f x else (0::int))"
  using assms
proof (induction xs)
  case Nil
  then show ?case by simp
next
  case (Cons a xs)
  show ?case
  proof (cases "a = x")
    case True
    with Cons.prems(1) have "g x \<notin> g ` set xs"
      by simp
    then have "filter (\<lambda>y. g y \<noteq> g x) xs = xs"
      by (intro filter_True) (metis imageI)
    with True show ?thesis by simp
  next
    case False
    with Cons.prems(2) have mem: "x \<in> set xs"
      by simp
    with Cons.prems(1) have "g a \<noteq> g x"
      by (metis distinct.simps(2) imageI list.simps(9) set_map)
    moreover from Cons.prems(1) have "distinct (map g xs)"
      by simp
    ultimately show ?thesis
      using Cons.IH[OF _ mem] by simp
  qed
qed

lemma sum_list_pages_nonneg:
  assumes "list_all (\<lambda>session. 1 \<le> pagesRead session) xs"
  shows "0 \<le> sum_list (map pagesRead (filter P xs))"
  using assms by (induction xs) simp_all

lemma logOnBook_fields [simp]:
  "book_id (logOnBook bid pages book) = book_id book"
  "totalPages (logOnBook bid pages book) = totalPages book"
  by (simp_all add: logOnBook_def)

lemma unlogOnBook_fields [simp]:
  "book_id (unlogOnBook session book) = book_id book"
  "totalPages (unlogOnBook session book) = totalPages book"
  by (simp_all add: unlogOnBook_def)

lemma ledgerInvariant_start: "ledgerInvariant DEFAULT_STATE"
  by (simp add: ledgerInvariant_def DEFAULT_STATE_def)

lemma ledgerInvariant_AddBook:
  assumes inv: "ledgerInvariant st" and fresh: "newId \<notin> book_id ` set (books st)"
  shows "ledgerInvariant (perform (AddBook bookForm newId now) st)"
  using handleBookSubmit_outcome[of bookForm newId now st]
proof (elim disjE exE conjE)
  assume "snd (handleBookSubmit bookForm newId now st) = st"
  with inv show ?thesis by simp
next
  fix total :: int
  define newBook where "newBook =
             \<lparr> book_id = newId, title = trim (title_in bookForm),
               author = trim (author_in bookForm), totalPages = total, currentPage = 0,
               status = NotStarted, startedAt = todayIso now,
               targetDate = orUndefined (targetDate_in bookForm),
               notes_opt = orUndefined (trim (notes_in bookForm)) \<rparr>"
  assume total: "0 < total"
    and "snd (handleBookSubmit bookForm newId now st) =
        st\<lparr> books :=
             \<lparr> book_id = newId, title = trim (title_in bookForm),
               author = trim (author_in bookForm), totalPages = total, currentPage = 0,
               status = NotStarted, startedAt = todayIso now,
               targetDate = orUndefined (targetDate_in bookForm),
               notes_opt = orUndefined (trim (notes_in bookForm)) \<rparr> # books st \<rparr>"
  then have st': "perform (AddBook bookForm newId now) st = st\<lparr> books := newBook # books st \<rparr>"
    by (simp add: newBook_def)
  have new: "book_id newBook = newId" "currentPage newBook = 0" "totalPages newBook = total"
    by (simp_all add: newBook_def)
  define st' where "st' = st\<lparr> books := newBook # books st \<rparr>"
  from inv have dist_books: "distinct (map book_id (books st))"
    and dist_sessions: "distinct (map session_id (sessions st))"
    and sessions_ok: "\<And>session. session \<in> set (sessions st) \<Longrightarrow>
           1 \<le> pagesRead session \<and> bookId session \<in> book_id ` set (books st)"
    and books_ok: "\<And>b. b \<in> set (books st) \<Longrightarrow>
           currentPage b \<le> totalPages b \<and> ledgerSum st b = currentPage b"
    by (auto simp: ledgerInvariant_def list_all_iff)
  from sessions_ok fresh have "filter (\<lambda>session. bookId session = newId) (sessions st) = []"
    by (auto simp: filter_empty_conv)
  then have sum_new: "ledgerSum st' newBook = 0"
    by (simp add: ledgerSum_def new st'_def)
  have sum_old: "ledgerSum st' book = ledgerSum st book" for book
    by (simp add: ledgerSum_def st'_def)
  have c1: "distinct (map book_id (books st'))"
    using dist_books fresh by (simp add: st'_def new)
  have c2: "distinct (map session_id (sessions st'))"
    using dist_sessions by (simp add: st'_def)
  have c3: "list_all (\<lambda>session. 1 \<le> pagesRead session \<and>
                 bookId session \<in> book_id ` set (books st')) (sessions st')"
    using sessions_ok by (auto simp: st'_def list_all_iff)
  have c4: "list_all (\<lambda>b. currentPage b \<le> totalPages b \<and> ledgerSum st' b = currentPage b)
              (books st')"
  proof -
    have "currentPage newBook \<le> totalPages newBook \<and> ledgerSum st' newBook = currentPage newBook"
      using total by (simp add: sum_new new)
    moreover have "currentPage b \<le> totalPages b \<and> ledgerSum st' b = currentPage b"
      if "b \<in> set (books st)" for b
      using books_ok[OF that] by (simp add: sum_old)
    ultimately show ?thesis
      by (auto simp: st'_def list_all_iff)
  qed
  from c1 c2 c3 c4 show ?thesis
    unfolding st' st'_def[symmetric] ledgerInvariant_def by (intro conjI)
qed

lemma ledgerInvariant_LogSession:
  assumes inv: "ledgerInvariant st"
    and fresh: "newId \<notin> session_id ` set (sessions st)"
    and fits: "fitsRemaining st sessionForm"
  shows "ledgerInvariant (perform (LogSession sessionForm newId) st)"
  using handleSessionSubmit_outcome[of sessionForm newId st]
proof (elim disjE exE conjE)
  assume "snd (handleSessionSubmit sessionForm newId st) = st"
  with inv show ?thesis by simp
next
  fix book :: Book and pages mins :: int
  define bid where "bid = bookId_in sessionForm"
  define new where "new = \<lparr> session_id = newId, bookId = bid,
                  date = date_in sessionForm, pagesRead = pages, minutes = mins,
                  note_opt = orUndefined (trim (note_in sessionForm)) \<rparr>"
  define st' where "st' = st\<lparr> sessions := sortSessions (new # sessions st),
                                books := map (logOnBook bid pages) (books st) \<rparr>"
  assume lookup: "booksById (books st) (bookId_in sessionForm) = Some book"
    and parse: "parseInt (pagesRead_in sessionForm) = Some pages"
    and pos: "0 < pages"
    and "snd (handleSessionSubmit sessionForm newId st) =
        st\<lparr> sessions := sortSessions
               (\<lparr> session_id = newId, bookId = bookId_in sessionForm,
                  date = date_in sessionForm, pagesRead = pages, minutes = mins,
                  note_opt = orUndefined (trim (note_in sessionForm)) \<rparr> # sessions st),
             books := map (logOnBook (bookId_in sessionForm) pages) (books st) \<rparr>"
  then have result: "perform (LogSession sessionForm newId) st = st'"
    by (simp add: st'_def new_def bid_def)
  have book: "book \<in> set (books st)" "book_id book = bid"
    using lookup by (simp_all add: booksById_mem booksById_id bid_def)
  from fits lookup parse have room: "currentPage book + pages \<le> totalPages book"
    by (simp add: fitsRemaining_def)
  from inv have dist_books: "distinct (map book_id (books st))"
    and dist_sessions: "distinct (map session_id (sessions st))"
    and sessions_ok: "\<And>session. session \<in> set (sessions st) \<Longrightarrow>
           1 \<le> pagesRead session \<and> bookId session \<in> book_id ` set (books st)"
    and books_ok: "\<And>b. b \<in> set (books st) \<Longrightarrow>
           currentPage b \<le> totalPages b \<and> ledgerSum st b = currentPage b"
    by (auto simp: ledgerInvariant_def list_all_iff)
  have the_book: "b = book" if "b \<in> set (books st)" and "book_id b = bid" for b
    using dist_books that book by (auto simp: distinct_map dest: inj_onD)
  have nonneg: "0 \<le> ledgerSum st b" for b
    unfolding ledgerSum_def
    by (rule sum_list_pages_nonneg) (simp add: list_all_iff sessions_ok)
  have sum': "ledgerSum st' b' = (if bid = book_id b' then pages else 0) + ledgerSum st b'" for b'
    by (simp add: ledgerSum_def st'_def sum_filter_sortSessions new_def)
  have sum_id: "ledgerSum st (logOnBook bid pages b) = ledgerSum st b" for b
    by (simp add: ledgerSum_def)
  have c1: "distinct (map book_id (books st'))"
    using dist_books by (simp add: st'_def comp_def)
  have c2: "distinct (map session_id (sessions st'))"
    using dist_sessions fresh by (simp add: st'_def distinct_sortSessions new_def)
  have ids: "book_id ` set (books st') = book_id ` set (books st)"
    by (simp add: st'_def image_image)
  have c3: "list_all (\<lambda>session. 1 \<le> pagesRead session \<and>
                 bookId session \<in> book_id ` set (books st')) (sessions st')"
    unfolding ids using pos book sessions_ok
    by (auto simp: st'_def list_all_iff set_sortSessions new_def)
  have c4: "list_all (\<lambda>b. currentPage b \<le> totalPages b \<and> ledgerSum st' b = currentPage b)
              (books st')"
  proof -
    have "currentPage (logOnBook bid pages b) \<le> totalPages (logOnBook bid pages b) \<and>
          ledgerSum st' (logOnBook bid pages b) = currentPage (logOnBook bid pages b)"
      if mem: "b \<in> set (books st)" for b
    proof (cases "book_id b = bid")
      case True
      with mem have "b = book"
        by (rule the_book)
      with room books_ok[OF mem] nonneg[of b] True pos show ?thesis
        by (simp add: sum' sum_id) (simp add: logOnBook_def clamp_def)
    next
      case False
      with books_ok[OF mem] show ?thesis
        by (simp add: sum' sum_id) (simp add: logOnBook_def)
    qed
    then show ?thesis
      by (auto simp: st'_def list_all_iff)
  qed
  from c1 c2 c3 c4 show ?thesis
    unfolding result ledgerInvariant_def by (intro conjI)
qed

lemma ledgerInvariant_RemoveSession:
  assumes inv: "ledgerInvariant st"
  shows "ledgerInvariant (perform (RemoveSession sessionId) st)"
proof (cases "find (\<lambda>item. session_id item = sessionId) (sessions st)")
  case None
  with inv show ?thesis
    by (simp add: removeSession_def)
next
  case (Some session)
  define st' where "st' = st\<lparr> sessions := filter (\<lambda>item. session_id item \<noteq> sessionId) (sessions st),
                                books := map (unlogOnBook session) (books st) \<rparr>"
  from Some have result: "perform (RemoveSession sessionId) st = st'"
    by (simp add: removeSession_def st'_def)
  from Some have session: "session \<in> set (sessions st)" "session_id session = sessionId"
    by (auto simp: find_Some_iff)
  from inv have dist_books: "distinct (map book_id (books st))"
    and dist_sessions: "distinct (map session_id (sessions st))"
    and sessions_ok: "\<And>x. x \<in> set (sessions st) \<Longrightarrow>
           1 \<le> pagesRead x \<and> bookId x \<in> book_id ` set (books st)"
    and books_ok: "\<And>b. b \<in> set (books st) \<Longrightarrow>
           currentPage b \<le> totalPages b \<and> ledgerSum st b = currentPage b"
    by (auto simp: ledgerInvariant_def list_all_iff)
  have sum': "ledgerSum st' b
                = ledgerSum st b - (if bookId session = book_id b then pagesRead session else 0)" for b
    using sum_filter_remove[OF dist_sessions session(1), of pagesRead "\<lambda>x. bookId x = book_id b"]
    by (simp add: ledgerSum_def st'_def session(2))
  have nonneg: "0 \<le> ledgerSum st' b" for b
    unfolding ledgerSum_def
    by (rule sum_list_pages_nonneg) (simp add: st'_def list_all_iff sessions_ok)
  have sum_id: "ledgerSum st' (unlogOnBook session b) = ledgerSum st' b" for b
    by (simp add: ledgerSum_def)
  have c1: "distinct (map book_id (books st'))"
    using dist_books by (simp add: st'_def comp_def)
  have c2: "distinct (map session_id (sessions st'))"
    using dist_sessions by (simp add: st'_def distinct_map_filter)
  have ids: "book_id ` set (books st') = book_id ` set (books st)"
    by (simp add: st'_def image_image)
  have c3: "list_all (\<lambda>x. 1 \<le> pagesRead x \<and> bookId x \<in> book_id ` set (books st'))
              (sessions st')"
    unfolding ids using sessions_ok by (auto simp: st'_def list_all_iff)
  have c4: "list_all (\<lambda>b. currentPage b \<le> totalPages b \<and> ledgerSum st' b = currentPage b)
              (books st')"
  proof -
    have "currentPage (unlogOnBook session b) \<le> totalPages (unlogOnBook session b) \<and>
          ledgerSum st' (unlogOnBook session b) = currentPage (unlogOnBook session b)"
      if mem: "b \<in> set (books st)" for b
    proof (cases "book_id b = bookId session")
      case True
      with books_ok[OF mem] nonneg[of b] sessions_ok[OF session(1)] show ?thesis
        by (simp add: sum_id) (simp add: sum' unlogOnBook_def clamp_def)
    next
      case False
      with books_ok[OF mem] show ?thesis
        by (simp add: sum_id) (simp add: sum' unlogOnBook_def)
    qed
    then show ?thesis
      by (auto simp: st'_def list_all_iff)
  qed
  from c1 c2 c3 c4 show ?thesis
    unfolding result ledgerInvariant_def by (intro conjI)
qed

lemma ledgerInvariant_reachable:
  assumes "reachable fittingLedgerOperation st"
  shows "ledgerInvariant st"
  using assms
proof (induction rule: reachable.induct)
  case start
  show ?case by (rule ledgerInvariant_start)
next
  case (step st op)
  show ?case
  proof (cases op)
    case (AddBook bookForm newId now)
    with step.hyps(2) have "newId \<notin> book_id ` set (books st)"
      by simp
    with step.IH show ?thesis
      unfolding AddBook by (rule ledgerInvariant_AddBook)
  next
    case (LogSession sessionForm newId)
    with step.hyps(2) have "newId \<notin> session_id ` set (sessions st)"
      and "fitsRemaining st sessionForm"
      by simp_all
    with step.IH show ?thesis
      unfolding LogSession by (rule ledgerInvariant_LogSession)
  next
    case (RemoveSession sessionId)
    from step.IH show ?thesis
      unfolding RemoveSession by (rule ledgerInvariant_RemoveSession)
  next
    case (SetBookProgress bid v)
    with step.hyps(2) show ?thesis
      by simp
  qed
qed

text \<open>
  C4, as stated: in every state reachable from the default state by adding books and
  logging and removing sessions (no manual progress), each book's \<open>currentPage\<close> is the
  sum of the stored \<open>pagesRead\<close> of its sessions. A session of 100 pages fills a new book
  of 100 pages; a further session of 5 pages is accepted and stored with its 5 pages,
  while \<open>currentPage\<close> stays at 100: the sum is 105.
\<close>

theorem ledger_sum_counterexample:
  "reachable ledgerOperation overfullLedgerState \<and>
   map currentPage (books overfullLedgerState) = [100] \<and>
   map (ledgerSum overfullLedgerState) (books overfullLedgerState) = [105]"
proof -
  have s1: "perform (AddBook exampleBookForm ''b1'' 0) DEFAULT_STATE =
    \<lparr> books = [\<lparr> book_id = ''b1'', title = ''Dune'', author = ''Herbert'', totalPages = 100,
                   currentPage = 0, status = NotStarted, startedAt = IsoDay 0,
                   targetDate = None, notes_opt = None \<rparr>],
      sessions = [], preferences = preferences DEFAULT_STATE \<rparr>"
    by (simp add: example_defs submit_defs parse_defs)
  have s2: "sessions (perform (LogSession (exampleSessionForm\<lparr> pagesRead_in := ''100'' \<rparr>) ''s1'')
              (perform (AddBook exampleBookForm ''b1'' 0) DEFAULT_STATE)) =
    [\<lparr> session_id = ''s1'', bookId = ''b1'', date = IsoDay 19001, pagesRead = 100,
       minutes = 30, note_opt = None \<rparr>]"
    unfolding s1 by (simp add: example_defs submit_defs parse_defs)
  have "reachable ledgerOperation overfullLedgerState"
    unfolding overfullLedgerState_def
  proof (intro reachable.step reachable.start)
    show "ledgerOperation DEFAULT_STATE (AddBook exampleBookForm ''b1'' 0)"
      by (simp add: DEFAULT_STATE_def)
    show "ledgerOperation (perform (AddBook exampleBookForm ''b1'' 0) DEFAULT_STATE)
            (LogSession (exampleSessionForm\<lparr> pagesRead_in := ''100'' \<rparr>) ''s1'')"
      unfolding s1 by simp
    show "ledgerOperation
            (perform (LogSession (exampleSessionForm\<lparr> pagesRead_in := ''100'' \<rparr>) ''s1'')
               (perform (AddBook exampleBookForm ''b1'' 0) DEFAULT_STATE))
            (LogSession (exampleSessionForm\<lparr> pagesRead_in := ''5'' \<rparr>) ''s2'')"
      unfolding ledgerOperation.simps s2 by simp
  qed
  moreover have "map currentPage (books overfullLedgerState) = [100]"
    unfolding overfullLedgerState_def s1
    by (simp add: example_defs submit_defs parse_defs)
  moreover have "map (ledgerSum overfullLedgerState) (books overfullLedgerState) = [105]"
    unfolding overfullLedgerState_def s1
    by (simp add: example_defs submit_defs parse_defs ledgerSum_def)
  ultimately show ?thesis
    by (intro conjI)
qed

text \<open>
  C4, amended: in every state reachable from the default state by adding books and
  logging and removing sessions, where \<^verbatim>\<open>safeId\<close> returns identifiers that are not in use,
  every entered number (the pages of a book, the pages and minutes of a session) is at
  most \<open>2^52\<close> so that the source's double arithmetic is exact, and every logged session
  fits into the remaining pages of its book (\<open>currentPage + pagesRead \<le> totalPages\<close> when
  it is logged), each book's \<open>currentPage\<close> equals the sum of the stored \<open>pagesRead\<close> of
  that book's sessions. Each operation keeps the equation by adding or subtracting the
  pages of the one session it handles.
\<close>

theorem currentPage_is_ledger_sum_when_fitting:
  assumes "reachable exactFittingLedgerOperation st" and "book \<in> set (books st)"
  shows "currentPage book = ledgerSum st book"
proof -
  from assms(1) have "reachable fittingLedgerOperation st"
    by (rule reachable_mono) (simp add: exactFittingLedgerOperation_def)
  from ledgerInvariant_reachable[OF this] assms(2) show ?thesis
    by (simp add: ledgerInvariant_def list_all_iff)
qed

theorem currentPage_is_ledger_sum_when_fitting_witness:
  "reachable exactFittingLedgerOperation fittingLedgerState \<and>
   map currentPage (books fittingLedgerState) = [30] \<and>
   map pagesRead (sessions fittingLedgerState) = [30] \<and>
   currentPage (hd (books fittingLedgerState))
     = ledgerSum fittingLedgerState (hd (books fittingLedgerState))"
proof -
  have s1: "perform (AddBook exampleBookForm ''b1'' 0) DEFAULT_STATE =
    \<lparr> books = [\<lparr> book_id = ''b1'', title = ''Dune'', author = ''Herbert'', totalPages = 100,
                   currentPage = 0, status = NotStarted, startedAt = IsoDay 0,
                   targetDate = None, notes_opt = None \<rparr>],
      sessions = [], preferences = preferences DEFAULT_STATE \<rparr>"
    by (simp add: example_defs submit_defs parse_defs)
  have s2: "perform (LogSession exampleSessionForm ''s1'')
              (perform (AddBook exampleBookForm ''b1'' 0) DEFAULT_STATE) =
    \<lparr> books = [\<lparr> book_id = ''b1'', title = ''Dune'', author = ''Herbert'', totalPages = 100,
                   currentPage = 50, status = InProgress, startedAt = IsoDay 0,
                   targetDate = None, notes_opt = None \<rparr>],
      sessions = [\<lparr> session_id = ''s1'', bookId = ''b1'', date = IsoDay 19001, pagesRead = 50,
                     minutes = 30, note_opt = None \<rparr>],
      preferences = preferences DEFAULT_STATE \<rparr>"
    unfolding s1 by (simp add: example_defs submit_defs parse_defs)
  have exact: "withinExactRange (AddBook exampleBookForm ''b1'' 0)"
    "withinExactRange (LogSession exampleSessionForm ''s1'')"
    "withinExactRange (LogSession (exampleSessionForm\<lparr> pagesRead_in := ''30'' \<rparr>) ''s2'')"
    "withinExactRange (RemoveSession ''s1'')"
    by (simp_all add: exactLimit_def exampleBookForm_def exampleSessionForm_def parse_defs)
  have reach: "reachable exactFittingLedgerOperation fittingLedgerState"
    unfolding fittingLedgerState_def
  proof (intro reachable.step reachable.start)
    show "exactFittingLedgerOperation DEFAULT_STATE (AddBook exampleBookForm ''b1'' 0)"
      unfolding exactFittingLedgerOperation_def
      by (rule conjI[OF _ exact(1)]) (simp add: DEFAULT_STATE_def)
    show "exactFittingLedgerOperation (perform (AddBook exampleBookForm ''b1'' 0) DEFAULT_STATE)
            (LogSession exampleSessionForm ''s1'')"
      unfolding exactFittingLedgerOperation_def s1
      by (rule conjI[OF _ exact(2)])
        (simp add: fitsRemaining_def booksById_def example_defs parse_defs)
    show "exactFittingLedgerOperation
            (perform (LogSession exampleSessionForm ''s1'')
               (perform (AddBook exampleBookForm ''b1'' 0) DEFAULT_STATE))
            (LogSession (exampleSessionForm\<lparr> pagesRead_in := ''30'' \<rparr>) ''s2'')"
      unfolding exactFittingLedgerOperation_def s2
      by (rule conjI[OF _ exact(3)])
        (simp add: fitsRemaining_def booksById_def example_defs parse_defs)
    show "exactFittingLedgerOperation
            (perform (LogSession (exampleSessionForm\<lparr> pagesRead_in := ''30'' \<rparr>) ''s2'')
               (perform (LogSession exampleSessionForm ''s1'')
                  (perform (AddBook exampleBookForm ''b1'' 0) DEFAULT_STATE)))
            (RemoveSession ''s1'')"
      by (simp add: exactFittingLedgerOperation_def)
  qed
  have bs: "map currentPage (books fittingLedgerState) = [30]"
    unfolding fittingLedgerState_def s2
    by (simp add: example_defs submit_defs parse_defs removeSession_def unlogOnBook_def)
  have ss: "map pagesRead (sessions fittingLedgerState) = [30]"
    unfolding fittingLedgerState_def s2
    by (simp add: example_defs submit_defs parse_defs removeSession_def unlogOnBook_def)
  have mem: "hd (books fittingLedgerState) \<in> set (books fittingLedgerState)"
    using bs by (cases "books fittingLedgerState") simp_all
  from currentPage_is_ledger_sum_when_fitting[OF reach mem] reach bs ss show ?thesis
    by (intro conjI)
qed

section \<open>The week window\<close>






section \<open>The streak\<close>












section \<open>Loading\<close>

lemma map_of_rev_distinct:
  assumes "distinct (map fst xs)"
  shows "map_of (rev xs) = map_of xs"
  using assms
proof (induction xs)
  case Nil
  show ?case by simp
next
  case (Cons x xs)
  then have "fst x \<notin> dom (map_of xs)"
    by (simp add: dom_map_of_conv_image_fst)
  then have "map_of xs (fst x) = None"
    by (simp add: domIff)
  with Cons show ?case
    by (cases x) (auto simp: map_add_def fun_eq_iff split: option.splits)
qed

lemma map_of_fold_update:
  "map_of (fold (\<lambda>(k, x) acc. AList.update k x acc) ps target) = map_of target ++ map_of (rev ps)"
proof (induction ps arbitrary: target)
  case Nil
  show ?case by simp
next
  case (Cons p ps)
  obtain k x where p: "p = (k, x)"
    by (cases p)
  have "map_of (fold (\<lambda>(k, x) acc. AList.update k x acc) (p # ps) target)
          = (map_of target)(k \<mapsto> x) ++ map_of (rev ps)"
    by (simp add: p Cons update_conv' fun_upd_def)
  also have "\<dots> = map_of target ++ map_of (rev (p # ps))"
    by (auto simp: p map_add_def fun_eq_iff split: option.splits)
  finally show ?case .
qed

lemma map_of_spreadInto_object:
  assumes "distinct (map fst kvs)"
  shows "map_of (spreadInto target (JObj kvs)) = map_of target ++ map_of kvs"
  by (simp add: spreadInto_def map_of_fold_update map_of_rev_distinct[OF assms])

lemma spread_default_preferences:
  "spreadInto [] (JObj (preferencesObject (preferences DEFAULT_STATE)))
     = [(''weeklyMinutesGoal'', JNum 420), (''dailyPagesGoal'', JNum 30),
        (''showCompleted'', JBool True)]"
  by (simp add: spreadInto_def preferencesObject_def DEFAULT_STATE_def)

lemma spread_default_state:
  "map_of (spreadInto [] (JObj DEFAULT_STATE_object)) = map_of DEFAULT_STATE_object"
  by (subst map_of_spreadInto_object) (simp_all add: DEFAULT_STATE_object_def)

text \<open>
  C8. A stored text that parses to an object without a \<open>preferences\<close> key loads to the
  properties of that object (the stored books and sessions among them), the defaults for
  the top-level keys it lacks, and the default preferences 420, 30 and true. Where the
  object has a \<open>preferences\<close> object, every field that object holds is kept and every
  field it lacks is the default. A stored text that does not parse, an empty text and a
  missing entry load to the default state; the load is a total function, so nothing is
  thrown.
\<close>

theorem loadEffect_fills_defaults:
  "(r \<noteq> [] \<and> JSON_parse r = Some (JObj kvs) \<and> distinct (map fst kvs) \<and>
    map_of kvs ''preferences'' = None
      \<longrightarrow> map_of (loadEffect JSON_parse (Some r))
            = (map_of DEFAULT_STATE_object ++ map_of kvs)
                (''preferences'' \<mapsto>
                   JObj [(''weeklyMinutesGoal'', JNum 420), (''dailyPagesGoal'', JNum 30),
                         (''showCompleted'', JBool True)])) \<and>
   (r \<noteq> [] \<and> JSON_parse r = Some (JObj kvs) \<and> distinct (map fst kvs) \<and>
    map_of kvs ''preferences'' = Some (JObj ps) \<and> distinct (map fst ps)
      \<longrightarrow> (\<exists>merged.
             map_of (loadEffect JSON_parse (Some r))
               = (map_of DEFAULT_STATE_object ++ map_of kvs)(''preferences'' \<mapsto> JObj merged) \<and>
             map_of merged
               = map_of [(''weeklyMinutesGoal'', JNum 420), (''dailyPagesGoal'', JNum 30),
                         (''showCompleted'', JBool True)] ++ map_of ps)) \<and>
   (JSON_parse r = None \<longrightarrow> loadEffect JSON_parse (Some r) = DEFAULT_STATE_object) \<and>
   loadEffect JSON_parse (Some []) = DEFAULT_STATE_object \<and>
   loadEffect JSON_parse None = DEFAULT_STATE_object \<and>
   DEFAULT_STATE_object =
     [(''books'', JArr []), (''sessions'', JArr []),
      (''preferences'',
         JObj [(''weeklyMinutesGoal'', JNum 420), (''dailyPagesGoal'', JNum 30),
               (''showCompleted'', JBool True)])]"
proof -
  have missing: "map_of (loadEffect JSON_parse (Some r))
            = (map_of DEFAULT_STATE_object ++ map_of kvs)
                (''preferences'' \<mapsto>
                   JObj [(''weeklyMinutesGoal'', JNum 420), (''dailyPagesGoal'', JNum 30),
                         (''showCompleted'', JBool True)])"
    if "r \<noteq> []" "JSON_parse r = Some (JObj kvs)" "distinct (map fst kvs)"
       "map_of kvs ''preferences'' = None"
  proof -
    have "spreadInto (spreadInto [] (JObj (preferencesObject (preferences DEFAULT_STATE)))) JUndefined
            = [(''weeklyMinutesGoal'', JNum 420), (''dailyPagesGoal'', JNum 30),
               (''showCompleted'', JBool True)]"
      by (simp add: spread_default_preferences) (simp add: spreadInto_def)
    with that show ?thesis
      by (simp add: loadEffect_def update_conv' map_of_spreadInto_object spread_default_state)
  qed
  have partial: "\<exists>merged.
             map_of (loadEffect JSON_parse (Some r))
               = (map_of DEFAULT_STATE_object ++ map_of kvs)(''preferences'' \<mapsto> JObj merged) \<and>
             map_of merged
               = map_of [(''weeklyMinutesGoal'', JNum 420), (''dailyPagesGoal'', JNum 30),
                         (''showCompleted'', JBool True)] ++ map_of ps"
    if "r \<noteq> []" "JSON_parse r = Some (JObj kvs)" "distinct (map fst kvs)"
       "map_of kvs ''preferences'' = Some (JObj ps)" "distinct (map fst ps)"
  proof (intro exI conjI)
    show "map_of (loadEffect JSON_parse (Some r))
            = (map_of DEFAULT_STATE_object ++ map_of kvs)
                (''preferences'' \<mapsto> JObj (spreadInto
                   (spreadInto [] (JObj (preferencesObject (preferences DEFAULT_STATE))))
                   (JObj ps)))"
      using that
      by (simp add: loadEffect_def update_conv' map_of_spreadInto_object spread_default_state)
    show "map_of (spreadInto
                   (spreadInto [] (JObj (preferencesObject (preferences DEFAULT_STATE))))
                   (JObj ps))
            = map_of [(''weeklyMinutesGoal'', JNum 420), (''dailyPagesGoal'', JNum 30),
                      (''showCompleted'', JBool True)] ++ map_of ps"
      by (simp only: map_of_spreadInto_object[OF that(5)] spread_default_preferences)
  qed
  have broken: "loadEffect JSON_parse (Some r) = DEFAULT_STATE_object" if "JSON_parse r = None"
    using that by (simp add: loadEffect_def)
  have empty: "loadEffect JSON_parse (Some []) = DEFAULT_STATE_object"
    and absent: "loadEffect JSON_parse None = DEFAULT_STATE_object"
    by (simp_all add: loadEffect_def)
  have default: "DEFAULT_STATE_object =
     [(''books'', JArr []), (''sessions'', JArr []),
      (''preferences'',
         JObj [(''weeklyMinutesGoal'', JNum 420), (''dailyPagesGoal'', JNum 30),
               (''showCompleted'', JBool True)])]"
    by (simp add: DEFAULT_STATE_object_def preferencesObject_def DEFAULT_STATE_def)
  show ?thesis
    by (intro conjI impI; (elim conjE)?) (rule missing partial broken empty absent default; assumption)+
qed

theorem loadEffect_fills_defaults_witness:
  "map_of (loadEffect exampleParse (Some ''blob'')) ''preferences''
     = Some (JObj [(''weeklyMinutesGoal'', JNum 420), (''dailyPagesGoal'', JNum 30),
                   (''showCompleted'', JBool True)]) \<and>
   map_of (loadEffect exampleParse (Some ''blob'')) ''books''
     = Some (JArr [JObj [(''id'', JStr ''b1''), (''totalPages'', JNum 100)]]) \<and>
   map_of (loadEffect exampleParse (Some ''blob'')) ''sessions'' = Some (JArr []) \<and>
   map_of (loadEffect exampleParse (Some ''partial'')) ''sessions'' = Some (JArr []) \<and>
   loadEffect exampleParse (Some ''{broken'') = DEFAULT_STATE_object"
proof -
  have blob: "''blob'' \<noteq> [] \<and> exampleParse ''blob'' = Some (JObj exampleBlob) \<and>
              distinct (map fst exampleBlob) \<and> map_of exampleBlob ''preferences'' = None"
    by (simp add: exampleParse_def exampleBlob_def)
  have part: "''partial'' \<noteq> [] \<and> exampleParse ''partial'' = Some (JObj examplePartialBlob) \<and>
              distinct (map fst examplePartialBlob) \<and>
              map_of examplePartialBlob ''preferences'' = Some (JObj [(''weeklyMinutesGoal'', JNum 100)]) \<and>
              distinct (map fst [(''weeklyMinutesGoal'', JNum 100)])"
    by (simp add: exampleParse_def examplePartialBlob_def)
  have unparsed: "exampleParse ''{broken'' = None"
    by (simp add: exampleParse_def)
  note at_blob = loadEffect_fills_defaults
    [where JSON_parse = exampleParse and r = "''blob''" and kvs = exampleBlob]
  note at_partial = loadEffect_fills_defaults
    [where JSON_parse = exampleParse and r = "''partial''" and kvs = examplePartialBlob
       and ps = "[(''weeklyMinutesGoal'', JNum 100)]"]
  note at_broken = loadEffect_fills_defaults
    [where JSON_parse = exampleParse and r = "''{broken''"]
  from at_blob[THEN conjunct1] blob
  have loaded: "map_of (loadEffect exampleParse (Some ''blob''))
            = (map_of DEFAULT_STATE_object ++ map_of exampleBlob)
                (''preferences'' \<mapsto>
                   JObj [(''weeklyMinutesGoal'', JNum 420), (''dailyPagesGoal'', JNum 30),
                         (''showCompleted'', JBool True)])"
    by (rule mp)
  from at_partial[THEN conjunct2, THEN conjunct1] part
  have "\<exists>merged.
          map_of (loadEffect exampleParse (Some ''partial''))
            = (map_of DEFAULT_STATE_object ++ map_of examplePartialBlob)
                (''preferences'' \<mapsto> JObj merged) \<and>
          map_of merged
            = map_of [(''weeklyMinutesGoal'', JNum 420), (''dailyPagesGoal'', JNum 30),
                      (''showCompleted'', JBool True)] ++ map_of [(''weeklyMinutesGoal'', JNum 100)]"
    by (rule mp)
  then obtain merged where loaded_partial: "map_of (loadEffect exampleParse (Some ''partial''))
               = (map_of DEFAULT_STATE_object ++ map_of examplePartialBlob)
                   (''preferences'' \<mapsto> JObj merged)"
    by (elim exE conjE)
  from at_broken[THEN conjunct2, THEN conjunct2, THEN conjunct1] unparsed
  have broken: "loadEffect exampleParse (Some ''{broken'') = DEFAULT_STATE_object"
    by (rule mp)
  have "map_of (loadEffect exampleParse (Some ''blob'')) ''preferences''
     = Some (JObj [(''weeklyMinutesGoal'', JNum 420), (''dailyPagesGoal'', JNum 30),
                   (''showCompleted'', JBool True)])"
    by (simp add: loaded)
  moreover have "map_of (loadEffect exampleParse (Some ''blob'')) ''books''
     = Some (JArr [JObj [(''id'', JStr ''b1''), (''totalPages'', JNum 100)]])"
    by (simp add: loaded exampleBlob_def)
  moreover have "map_of (loadEffect exampleParse (Some ''blob'')) ''sessions'' = Some (JArr [])"
    by (simp add: loaded exampleBlob_def)
  moreover have "map_of (loadEffect exampleParse (Some ''partial'')) ''sessions'' = Some (JArr [])"
    by (simp add: loaded_partial examplePartialBlob_def DEFAULT_STATE_object_def map_add_def)
  ultimately show ?thesis
    using broken by (intro conjI)
qed

end
